theory Spec2Isabelle
  imports Main
begin

section \<open>The page: elements, class lists and references\<close>

text \<open>
  \<^verbatim>\<open>script.js\<close> works on three things of the host document: the class list of
  elements, the references that \<^verbatim>\<open>querySelector\<close> and \<^verbatim>\<open>querySelectorAll\<close> return,
  and the click listeners it registers, which the host calls as a click travels from its
  target up the tree. An element is modelled by its class list (the tokens of its
  \<^verbatim>\<open>class\<close> attribute, in order) and its \<^verbatim>\<open>parentNode\<close>, the document by the list of
  its elements in document order, and a reference to an element by its position in that
  list. \<^verbatim>\<open>null\<close> is \<open>None\<close>; the \<^verbatim>\<open>parentNode\<close> of an element whose parent is not
  an element is \<open>None\<close> too.
\<close>

type_synonym ref = "nat option"

record element =
  classList :: "string list"
  parentNode :: ref

type_synonym document = "element list"

datatype error = TypeError

subsection \<open>DOMTokenList\<close>

text \<open>
  \<^verbatim>\<open>classList.contains(token)\<close>, \<^verbatim>\<open>classList.toggle(token)\<close> (without the force
  argument: the token is removed when present and appended when absent) and
  \<^verbatim>\<open>classList.remove(token)\<close>.
\<close>

definition contains :: "string \<Rightarrow> string list \<Rightarrow> bool" where
  "contains token tokens = (token \<in> set tokens)"

definition toggle :: "string \<Rightarrow> string list \<Rightarrow> string list" where
  "toggle token tokens =
     (if token \<in> set tokens then removeAll token tokens else tokens @ [token])"

definition remove_token :: "string \<Rightarrow> string list \<Rightarrow> string list" where
  "remove_token token tokens = removeAll token tokens"

text \<open>
  \<^verbatim>\<open>r.classList.toggle(token)\<close> and \<^verbatim>\<open>r.classList.remove(token)\<close> on a reference
  \<open>r\<close>: reading \<^verbatim>\<open>classList\<close> of \<^verbatim>\<open>null\<close> throws a TypeError, otherwise the
  class list of the element referred to is updated in place. A reference that is not
  \<^verbatim>\<open>null\<close> comes from a lookup in the document, so it is a position of the list.
\<close>

definition classList_toggle :: "ref \<Rightarrow> string \<Rightarrow> document \<Rightarrow> error + document" where
  "classList_toggle r token els =
     (case r of
        None \<Rightarrow> Inl TypeError
      | Some i \<Rightarrow> Inr (els[i := (els ! i)\<lparr>classList := toggle token (classList (els ! i))\<rparr>]))"

definition classList_remove :: "ref \<Rightarrow> string \<Rightarrow> document \<Rightarrow> error + document" where
  "classList_remove r token els =
     (case r of
        None \<Rightarrow> Inl TypeError
      | Some i \<Rightarrow> Inr (els[i := (els ! i)\<lparr>classList := remove_token token (classList (els ! i))\<rparr>]))"

text \<open>The marker of the specification: the element at \<open>i\<close> carries the class \<^verbatim>\<open>active\<close>.\<close>

definition active :: "document \<Rightarrow> nat \<Rightarrow> bool" where
  "active els i = contains ''active'' (classList (els ! i))"

subsection \<open>Selectors\<close>

text \<open>
  The script only uses class selectors (\<^verbatim>\<open>'.hamburger'\<close>, \<^verbatim>\<open>'.nav-menu'\<close>,
  \<^verbatim>\<open>'.nav-link'\<close>): an element matches \<^verbatim>\<open>.c\<close> when \<^verbatim>\<open>c\<close> is one of its classes.
  \<^verbatim>\<open>querySelectorAll\<close> returns the matching elements in document order,
  \<^verbatim>\<open>querySelector\<close> the first of them or \<^verbatim>\<open>null\<close>.
\<close>

fun matches :: "string \<Rightarrow> element \<Rightarrow> bool" where
  "matches (c # cls) e = (c = CHR ''.'' \<and> cls \<in> set (classList e))"
| "matches [] e = False"

definition querySelectorAll :: "string \<Rightarrow> document \<Rightarrow> nat list" where
  "querySelectorAll sel doc = filter (\<lambda>i. matches sel (doc ! i)) [0..<length doc]"

definition querySelector :: "string \<Rightarrow> document \<Rightarrow> ref" where
  "querySelector sel doc =
     (case querySelectorAll sel doc of [] \<Rightarrow> None | i # _ \<Rightarrow> Some i)"

section \<open>The script\<close>

subsection \<open>The two click handlers\<close>

text \<open>
  Both arrow functions close over the constants \<^verbatim>\<open>hamburger\<close> and \<^verbatim>\<open>navMenu\<close>.
  A handler runs its statements in order on the document; a statement that throws ends
  the handler, and what the statements before it did stays done. The result is the document
  as the handler leaves it and the exception, if any.

  \<^verbatim>\<open>hamburger.classList.toggle('active'); navMenu.classList.toggle('active');\<close>
\<close>

definition hamburger_click :: "ref \<Rightarrow> ref \<Rightarrow> document \<Rightarrow> document \<times> error option" where
  "hamburger_click hamburger navMenu els =
     (case classList_toggle hamburger ''active'' els of
        Inl e \<Rightarrow> (els, Some e)
      | Inr els1 \<Rightarrow>
          (case classList_toggle navMenu ''active'' els1 of
             Inl e \<Rightarrow> (els1, Some e)
           | Inr els2 \<Rightarrow> (els2, None)))"

text \<open>
  \<^verbatim>\<open>hamburger.classList.remove('active'); navMenu.classList.remove('active');\<close>
\<close>

definition nav_link_click :: "ref \<Rightarrow> ref \<Rightarrow> document \<Rightarrow> document \<times> error option" where
  "nav_link_click hamburger navMenu els =
     (case classList_remove hamburger ''active'' els of
        Inl e \<Rightarrow> (els, Some e)
      | Inr els1 \<Rightarrow>
          (case classList_remove navMenu ''active'' els1 of
             Inl e \<Rightarrow> (els1, Some e)
           | Inr els2 \<Rightarrow> (els2, None)))"

subsection \<open>Listeners and the page\<close>

text \<open>
  A registered listener is one of the two closures with the references it captured. The
  page is the document together with the click listeners registered so far, each with the
  element it is registered on, in registration order.
\<close>

datatype listener = HamburgerClick ref ref | NavLinkClick ref ref

record page =
  elements :: document
  listeners :: "(nat \<times> listener) list"

text \<open>
  The event object of a click. Its \<open>defaultPrevented\<close> flag is what
  \<^verbatim>\<open>preventDefault()\<close> would set; the default action of the target (following
  a link) takes place after the dispatch unless the flag is set.
\<close>

record event =
  target :: nat
  defaultPrevented :: bool

text \<open>
  Calling a listener with the event. Both closures are declared with an empty parameter
  list (\<^verbatim>\<open>() => { ... }\<close>), so the event object is dropped and comes back as it was.
\<close>

fun call :: "listener \<Rightarrow> event \<Rightarrow> document \<Rightarrow> event \<times> document \<times> error option" where
  "call (HamburgerClick hamburger navMenu) ev els =
     (case hamburger_click hamburger navMenu els of (els', err) \<Rightarrow> (ev, els', err))"
| "call (NavLinkClick hamburger navMenu) ev els =
     (case nav_link_click hamburger navMenu els of (els', err) \<Rightarrow> (ev, els', err))"

subsection \<open>The DOMContentLoaded handler\<close>

text \<open>
  The three lookups, then \<^verbatim>\<open>hamburger.addEventListener('click', ...)\<close>, which throws
  a TypeError when \<^verbatim>\<open>hamburger\<close> is \<^verbatim>\<open>null\<close> (nothing has been registered at that
  point), then one listener on every element of \<^verbatim>\<open>navLinks\<close>. \<^verbatim>\<open>navMenu\<close> is only
  captured, not dereferenced.
\<close>

definition DOMContentLoaded :: "document \<Rightarrow> error + page" where
  "DOMContentLoaded doc =
     (let hamburger = querySelector ''.hamburger'' doc;
          navMenu = querySelector ''.nav-menu'' doc;
          navLinks = querySelectorAll ''.nav-link'' doc
      in case hamburger of
           None \<Rightarrow> Inl TypeError
         | Some h \<Rightarrow>
             Inr \<lparr>elements = doc,
                  listeners = (h, HamburgerClick hamburger navMenu) #
                              map (\<lambda>item. (item, NavLinkClick hamburger navMenu)) navLinks\<rparr>)"

subsection \<open>Dispatching a click\<close>

text \<open>
  The propagation path of an event with target \<open>t\<close>: the target, its parent, the parent
  of that, and so on to the root. In document order an element comes after its parent,
  so every step goes to an earlier position; a \<open>parentNode\<close> that does not is not the
  parent of a tree and ends the path.
\<close>

function propagation_path :: "document \<Rightarrow> nat \<Rightarrow> nat list" where
  "propagation_path doc t =
     t # (if t < length doc
          then (case parentNode (doc ! t) of
                  None \<Rightarrow> []
                | Some p \<Rightarrow> if p < t then propagation_path doc p else [])
          else [])"
  by pat_completeness auto
termination
  by (relation "measure (\<lambda>(doc, t). t)") auto

declare propagation_path.simps [simp del]

text \<open>
  The script registers every listener with \<^verbatim>\<open>addEventListener('click', f)\<close>, that is for
  the target and bubbling phases, and it never stops the propagation. So a click on the
  element \<open>t\<close> invokes the listeners registered on \<open>t\<close>, in registration order, then
  those registered on its parent, and so on along the propagation path. An exception
  thrown by a listener is reported and does not stop the listeners after it. The result
  is the page after the dispatch, the event object and the exceptions reported.
\<close>

fun run_listeners :: "listener list \<Rightarrow> event \<Rightarrow> document \<Rightarrow> event \<times> document \<times> error list" where
  "run_listeners [] ev els = (ev, els, [])"
| "run_listeners (l # ls) ev els =
     (case call l ev els of
        (ev1, els1, err) \<Rightarrow>
          (case run_listeners ls ev1 els1 of
             (ev2, els2, errs) \<Rightarrow> (ev2, els2, (case err of None \<Rightarrow> [] | Some e \<Rightarrow> [e]) @ errs)))"

definition listeners_on :: "nat \<Rightarrow> page \<Rightarrow> listener list" where
  "listeners_on t pg = map snd (filter (\<lambda>(i, l). i = t) (listeners pg))"

definition listeners_along :: "nat \<Rightarrow> page \<Rightarrow> listener list" where
  "listeners_along t pg =
     concat (map (\<lambda>i. listeners_on i pg) (propagation_path (elements pg) t))"

definition click :: "nat \<Rightarrow> page \<Rightarrow> page \<times> event \<times> error list" where
  "click t pg =
     (case run_listeners (listeners_along t pg) \<lparr>target = t, defaultPrevented = False\<rparr> (elements pg) of
        (ev, els, errs) \<Rightarrow> (pg\<lparr>elements := els\<rparr>, ev, errs))"

text \<open>The event step relation: one click, on any element, takes the page to the next.\<close>

inductive step :: "page \<Rightarrow> page \<Rightarrow> bool" where
  step_click: "click t pg = (pg', ev, errs) \<Longrightarrow> step pg pg'"

inductive reachable :: "page \<Rightarrow> page \<Rightarrow> bool" for pg0 :: page where
  reachable_init: "reachable pg0 pg0"
| reachable_step: "reachable pg0 pg \<Longrightarrow> step pg pg' \<Longrightarrow> reachable pg0 pg'"

text \<open>
  \<open>n\<close> clicks in a row, as the toggle handler sees them. Every click is an event of its
  own, so an exception thrown by one run does not keep the next from running. The result
  is the document after the last run and the exceptions thrown, in order.
\<close>

fun hamburger_clicks :: "nat \<Rightarrow> ref \<Rightarrow> ref \<Rightarrow> document \<Rightarrow> document \<times> error list" where
  "hamburger_clicks 0 hamburger navMenu els = (els, [])"
| "hamburger_clicks (Suc n) hamburger navMenu els =
     (case hamburger_click hamburger navMenu els of
        (els1, err) \<Rightarrow>
          (case hamburger_clicks n hamburger navMenu els1 of
             (els2, errs) \<Rightarrow> (els2, (case err of None \<Rightarrow> [] | Some e \<Rightarrow> [e]) @ errs)))"

section \<open>Lookups, class lists and single statements\<close>

lemma contains_toggle [simp]: "contains t (toggle t ts) = (\<not> contains t ts)"
  by (simp add: contains_def toggle_def)

lemma contains_remove_token [simp]: "\<not> contains t (remove_token t ts)"
  by (simp add: contains_def remove_token_def)

lemma querySelectorAll_lt: "i \<in> set (querySelectorAll sel doc) \<Longrightarrow> i < length doc"
  by (simp add: querySelectorAll_def)

lemma querySelectorAll_distinct: "distinct (querySelectorAll sel doc)"
  by (simp add: querySelectorAll_def)

lemma querySelector_lt: "querySelector sel doc = Some i \<Longrightarrow> i < length doc"
  using querySelectorAll_lt [of i sel doc]
  by (auto simp: querySelector_def split: list.splits)

lemma toggle_others: "filter (\<lambda>x. x \<noteq> t) (toggle t ts) = filter (\<lambda>x. x \<noteq> t) ts"
  by (auto simp: toggle_def removeAll_filter_not_eq intro!: filter_cong)

lemma remove_token_others: "filter (\<lambda>x. x \<noteq> t) (remove_token t ts) = filter (\<lambda>x. x \<noteq> t) ts"
  by (auto simp: remove_token_def removeAll_filter_not_eq intro!: filter_cong)

lemma toggle_toggle_set: "set (toggle t (toggle t ts)) = set ts"
  by (auto simp: toggle_def)

lemma remove_token_absent: "\<not> contains t ts \<Longrightarrow> remove_token t ts = ts"
  by (simp add: contains_def remove_token_def)

lemma remove_token_toggle_absent: "\<not> contains t ts \<Longrightarrow> remove_token t (toggle t ts) = ts"
  by (simp add: contains_def remove_token_def toggle_def)

lemma toggle_toggle_absent: "\<not> contains t ts \<Longrightarrow> toggle t (toggle t ts) = ts"
  by (simp add: contains_def toggle_def)

subsection \<open>One statement\<close>

lemma classList_toggle_length:
  "classList_toggle r t els = Inr els' \<Longrightarrow> length els' = length els"
  by (auto simp: classList_toggle_def split: option.splits)

lemma classList_toggle_nth:
  "classList_toggle r t els = Inr els' \<Longrightarrow> j < length els \<Longrightarrow>
   classList (els' ! j) = (if r = Some j then toggle t (classList (els ! j)) else classList (els ! j))"
  by (auto simp: classList_toggle_def nth_list_update split: option.splits)

lemma classList_toggle_other:
  "classList_toggle r t els = Inr els' \<Longrightarrow> r \<noteq> Some j \<Longrightarrow> els' ! j = els ! j"
  by (auto simp: classList_toggle_def split: option.splits)

lemma classList_remove_length:
  "classList_remove r t els = Inr els' \<Longrightarrow> length els' = length els"
  by (auto simp: classList_remove_def split: option.splits)

lemma classList_remove_nth:
  "classList_remove r t els = Inr els' \<Longrightarrow> j < length els \<Longrightarrow>
   classList (els' ! j) = (if r = Some j then remove_token t (classList (els ! j)) else classList (els ! j))"
  by (auto simp: classList_remove_def nth_list_update split: option.splits)

lemma classList_remove_other:
  "classList_remove r t els = Inr els' \<Longrightarrow> r \<noteq> Some j \<Longrightarrow> els' ! j = els ! j"
  by (auto simp: classList_remove_def split: option.splits)

lemma list_update_parentNode:
  "parentNode (els[i := (els ! i)\<lparr>classList := cs\<rparr>] ! j) = parentNode (els ! j)"
  by (cases "i < length els"; cases "i = j") (simp_all add: list_update_beyond)

lemma classList_toggle_parentNode:
  "classList_toggle r t els = Inr els' \<Longrightarrow> parentNode (els' ! j) = parentNode (els ! j)"
  by (auto simp: classList_toggle_def list_update_parentNode split: option.splits)

lemma classList_remove_parentNode:
  "classList_remove r t els = Inr els' \<Longrightarrow> parentNode (els' ! j) = parentNode (els ! j)"
  by (auto simp: classList_remove_def list_update_parentNode split: option.splits)

lemma document_eqI:
  fixes els els' :: document
  assumes "length els' = length els"
    and "\<And>i. i < length els \<Longrightarrow> classList (els' ! i) = classList (els ! i)"
    and "\<And>i. i < length els \<Longrightarrow> parentNode (els' ! i) = parentNode (els ! i)"
  shows "els' = els"
  using assms by (auto intro!: nth_equalityI)

subsection \<open>The handlers, statement by statement\<close>

lemma hamburger_click_cases:
  assumes "hamburger_click r1 r2 els = (els', err)"
  obtains (first) "r1 = None" "els' = els" "err = Some TypeError"
  | (second) els1 where "classList_toggle r1 ''active'' els = Inr els1" "r2 = None" "els' = els1" "err = Some TypeError"
  | (both) els1 where "classList_toggle r1 ''active'' els = Inr els1" "classList_toggle r2 ''active'' els1 = Inr els'" "err = None"
  using assms
  by (auto simp: hamburger_click_def classList_toggle_def split: option.splits)

lemma nav_link_click_cases:
  assumes "nav_link_click r1 r2 els = (els', err)"
  obtains (first) "r1 = None" "els' = els" "err = Some TypeError"
  | (second) els1 where "classList_remove r1 ''active'' els = Inr els1" "r2 = None" "els' = els1" "err = Some TypeError"
  | (both) els1 where "classList_remove r1 ''active'' els = Inr els1" "classList_remove r2 ''active'' els1 = Inr els'" "err = None"
  using assms
  by (auto simp: nav_link_click_def classList_remove_def split: option.splits)

lemma hamburger_click_length:
  "hamburger_click r1 r2 els = (els', err) \<Longrightarrow> length els' = length els"
  by (erule hamburger_click_cases) (auto dest!: classList_toggle_length)

lemma hamburger_click_parentNode:
  "hamburger_click r1 r2 els = (els', err) \<Longrightarrow> parentNode (els' ! i) = parentNode (els ! i)"
  by (erule hamburger_click_cases) (simp_all add: classList_toggle_parentNode [of _ _ _ _ i])

lemma hamburger_click_other:
  "hamburger_click r1 r2 els = (els', err) \<Longrightarrow> r1 \<noteq> Some i \<Longrightarrow> r2 \<noteq> Some i \<Longrightarrow> els' ! i = els ! i"
  by (erule hamburger_click_cases) (simp_all add: classList_toggle_other [of _ _ _ _ i])

lemma hamburger_click_classes:
  assumes "hamburger_click r1 r2 els = (els', err)" "i < length els"
  shows "filter (\<lambda>c. c \<noteq> ''active'') (classList (els' ! i)) = filter (\<lambda>c. c \<noteq> ''active'') (classList (els ! i))"
  using assms(1)
proof (cases rule: hamburger_click_cases)
  case first
  then show ?thesis by simp
next
  case (second els1)
  then show ?thesis using assms(2) by (simp add: classList_toggle_nth toggle_others)
next
  case (both els1)
  then show ?thesis using assms(2)
    by (simp add: classList_toggle_nth [OF both(2)] classList_toggle_nth [OF both(1)]
        classList_toggle_length [OF both(1)] toggle_others)
qed

lemma hamburger_click_ok:
  assumes "hamburger_click (Some h) (Some m) els = (els', err)"
  shows "err = None"
  using assms by (cases rule: hamburger_click_cases) auto

lemma hamburger_click_classList:
  assumes "hamburger_click (Some h) (Some m) els = (els', err)" "i < length els"
  shows "classList (els' ! i) =
           (if i = h \<and> i = m then toggle ''active'' (toggle ''active'' (classList (els ! i)))
            else if i = h \<or> i = m then toggle ''active'' (classList (els ! i))
            else classList (els ! i))"
  using assms(1)
proof (cases rule: hamburger_click_cases)
  case (both els1)
  then show ?thesis using assms(2)
    by (simp add: classList_toggle_nth [OF both(2)] classList_toggle_nth [OF both(1)]
        classList_toggle_length [OF both(1)])
qed auto

lemma nav_link_click_classList:
  assumes "nav_link_click (Some h) (Some m) els = (els', err)" "i < length els"
  shows "classList (els' ! i) =
           (if i = h \<or> i = m then remove_token ''active'' (classList (els ! i))
            else classList (els ! i))"
  using assms(1)
proof (cases rule: nav_link_click_cases)
  case (both els1)
  then show ?thesis using assms(2)
    by (simp add: classList_remove_nth [OF both(2)] classList_remove_nth [OF both(1)]
        classList_remove_length [OF both(1)] remove_token_def)
qed auto

lemma nav_link_click_ok:
  assumes "nav_link_click (Some h) (Some m) els = (els', err)"
  shows "err = None"
  using assms by (cases rule: nav_link_click_cases) auto

lemma nav_link_click_length:
  "nav_link_click r1 r2 els = (els', err) \<Longrightarrow> length els' = length els"
  by (erule nav_link_click_cases) (auto dest!: classList_remove_length)

lemma nav_link_click_parentNode:
  "nav_link_click r1 r2 els = (els', err) \<Longrightarrow> parentNode (els' ! i) = parentNode (els ! i)"
  by (erule nav_link_click_cases) (simp_all add: classList_remove_parentNode [of _ _ _ _ i])

lemma nav_link_click_other:
  "nav_link_click r1 r2 els = (els', err) \<Longrightarrow> r1 \<noteq> Some i \<Longrightarrow> r2 \<noteq> Some i \<Longrightarrow> els' ! i = els ! i"
  by (erule nav_link_click_cases) (simp_all add: classList_remove_other [of _ _ _ _ i])

lemma nav_link_click_classes:
  assumes "nav_link_click r1 r2 els = (els', err)" "i < length els"
  shows "filter (\<lambda>c. c \<noteq> ''active'') (classList (els' ! i)) = filter (\<lambda>c. c \<noteq> ''active'') (classList (els ! i))"
  using assms(1)
proof (cases rule: nav_link_click_cases)
  case first
  then show ?thesis by simp
next
  case (second els1)
  then show ?thesis using assms(2) by (simp add: classList_remove_nth remove_token_others)
next
  case (both els1)
  then show ?thesis using assms(2)
    by (simp add: classList_remove_nth [OF both(2)] classList_remove_nth [OF both(1)]
        classList_remove_length [OF both(1)] remove_token_others)
qed

lemma hamburger_click_flips:
  assumes "hamburger_click (Some h) (Some m) els = (els', err)" "h < length els" "m < length els" "h \<noteq> m"
  shows "active els' h = (\<not> active els h)" "active els' m = (\<not> active els m)"
  using assms by (simp_all add: active_def hamburger_click_classList [OF assms(1)])

text \<open>
  Were the toggle control and the menu panel one and the same element, the two toggles of
  one run would undo each other.
\<close>

lemma hamburger_click_same_element:
  assumes "hamburger_click (Some h) (Some h) els = (els', err)" "h < length els"
  shows "active els' h = active els h"
  using assms by (simp add: active_def hamburger_click_classList [OF assms(1)] contains_def toggle_def)

lemma nav_link_click_clears:
  assumes "nav_link_click (Some h) (Some m) els = (els', err)" "h < length els" "m < length els"
  shows "\<not> active els' h" "\<not> active els' m"
  using assms by (simp_all add: active_def nav_link_click_classList [OF assms(1)])

lemma nav_link_click_closed:
  assumes "\<not> active els h" "\<not> active els m" "h < length els" "m < length els"
  shows "nav_link_click (Some h) (Some m) els = (els, None)"
proof -
  obtain els' err where r: "nav_link_click (Some h) (Some m) els = (els', err)"
    by (cases "nav_link_click (Some h) (Some m) els")
  have "els' = els"
    using assms nav_link_click_length [OF r]
    by (intro document_eqI)
       (auto simp: nav_link_click_classList [OF r] nav_link_click_parentNode [OF r] active_def
          remove_token_absent)
  with r nav_link_click_ok [OF r] show ?thesis by simp
qed

lemma toggle_then_remove_closed:
  assumes "\<not> active els h" "\<not> active els m" "h < length els" "m < length els"
    and "hamburger_click (Some h) (Some m) els = (els1, err)"
  shows "nav_link_click (Some h) (Some m) els1 = (els, None)"
proof -
  obtain els' err' where r: "nav_link_click (Some h) (Some m) els1 = (els', err')"
    by (cases "nav_link_click (Some h) (Some m) els1")
  have len: "length els1 = length els" using assms(5) by (rule hamburger_click_length)
  have "els' = els"
    using assms(1-4) nav_link_click_length [OF r] len
    by (intro document_eqI)
       (auto simp: nav_link_click_classList [OF r] hamburger_click_classList [OF assms(5)] active_def
          nav_link_click_parentNode [OF r] hamburger_click_parentNode [OF assms(5)]
          remove_token_absent remove_token_toggle_absent toggle_toggle_absent)
  with r nav_link_click_ok [OF r] show ?thesis by simp
qed

section \<open>Listeners and clicks\<close>

lemma call_length: "call l ev els = (ev', els', err) \<Longrightarrow> length els' = length els"
  by (cases l) (auto split: prod.splits dest: hamburger_click_length nav_link_click_length)

lemma call_event: "call l ev els = (ev', els', err) \<Longrightarrow> ev' = ev"
  by (cases l) (auto split: prod.splits)

lemma call_classes:
  "call l ev els = (ev', els', err) \<Longrightarrow> i < length els \<Longrightarrow>
   filter (\<lambda>c. c \<noteq> ''active'') (classList (els' ! i)) = filter (\<lambda>c. c \<noteq> ''active'') (classList (els ! i))"
  by (cases l) (auto split: prod.splits dest: hamburger_click_classes nav_link_click_classes)

lemma run_listeners_event: "run_listeners ls ev els = (ev', els', errs) \<Longrightarrow> ev' = ev"
  by (induction ls arbitrary: ev els ev' els' errs) (auto split: prod.splits dest: call_event)

lemma run_listeners_length: "run_listeners ls ev els = (ev', els', errs) \<Longrightarrow> length els' = length els"
proof (induction ls arbitrary: ev els ev' els' errs)
  case Nil
  then show ?case by simp
next
  case (Cons l ls)
  obtain ev1 els1 err where c: "call l ev els = (ev1, els1, err)"
    by (cases "call l ev els")
  obtain ev2 els2 errs2 where r: "run_listeners ls ev1 els1 = (ev2, els2, errs2)"
    by (cases "run_listeners ls ev1 els1")
  from Cons.prems c r have "els' = els2" by simp
  with Cons.IH [OF r] call_length [OF c] show ?case by simp
qed

lemma run_listeners_classes:
  "run_listeners ls ev els = (ev', els', errs) \<Longrightarrow> i < length els \<Longrightarrow>
   filter (\<lambda>c. c \<noteq> ''active'') (classList (els' ! i)) = filter (\<lambda>c. c \<noteq> ''active'') (classList (els ! i))"
proof (induction ls arbitrary: ev els ev' els' errs)
  case Nil
  then show ?case by simp
next
  case (Cons l ls)
  obtain ev1 els1 err where c: "call l ev els = (ev1, els1, err)"
    by (cases "call l ev els")
  obtain ev2 els2 errs2 where r: "run_listeners ls ev1 els1 = (ev2, els2, errs2)"
    by (cases "run_listeners ls ev1 els1")
  from Cons.prems(1) c r have "els' = els2" by simp
  moreover have "i < length els1" using call_length [OF c] Cons.prems(2) by simp
  ultimately show ?case
    using Cons.IH [OF r] call_classes [OF c Cons.prems(2)] by simp
qed

lemma call_parentNode:
  "call l ev els = (ev', els', err) \<Longrightarrow> parentNode (els' ! i) = parentNode (els ! i)"
  by (cases l) (auto split: prod.splits dest: hamburger_click_parentNode nav_link_click_parentNode)

lemma run_listeners_parentNode:
  "run_listeners ls ev els = (ev', els', errs) \<Longrightarrow> parentNode (els' ! i) = parentNode (els ! i)"
proof (induction ls arbitrary: ev els ev' els' errs)
  case Nil
  then show ?case by simp
next
  case (Cons l ls)
  obtain ev1 els1 err where c: "call l ev els = (ev1, els1, err)"
    by (cases "call l ev els")
  obtain ev2 els2 errs2 where r: "run_listeners ls ev1 els1 = (ev2, els2, errs2)"
    by (cases "run_listeners ls ev1 els1")
  from Cons.prems c r have "els' = els2" by simp
  with Cons.IH [OF r] call_parentNode [OF c] show ?case by simp
qed

lemma run_listeners_append:
  "run_listeners (xs @ ys) ev els =
     (case run_listeners xs ev els of
        (ev1, els1, errs1) \<Rightarrow>
          (case run_listeners ys ev1 els1 of
             (ev2, els2, errs2) \<Rightarrow> (ev2, els2, errs1 @ errs2)))"
  by (induction xs arbitrary: ev els) (auto split: prod.splits)

text \<open>The markers stay equal under the script's listeners.\<close>

lemma call_keeps_equal:
  assumes "call l ev els = (ev', els', err)"
    and "l = HamburgerClick (Some h) (Some m) \<or> l = NavLinkClick (Some h) (Some m)"
    and "h < length els" "m < length els" "active els h = active els m"
  shows "active els' h = active els' m \<and> err = None"
proof (cases "h = m")
  case True
  with assms show ?thesis
    by (auto split: prod.splits dest: hamburger_click_ok nav_link_click_ok)
next
  case False
  with assms show ?thesis
    by (auto split: prod.splits dest: hamburger_click_ok nav_link_click_ok
        simp: hamburger_click_flips nav_link_click_clears)
qed

lemma run_listeners_keeps_equal:
  assumes "run_listeners ls ev els = (ev', els', errs)"
    and "set ls \<subseteq> {HamburgerClick (Some h) (Some m), NavLinkClick (Some h) (Some m)}"
    and "h < length els" "m < length els" "active els h = active els m"
  shows "active els' h = active els' m \<and> errs = []"
  using assms
proof (induction ls arbitrary: ev els ev' els' errs)
  case Nil
  then show ?case by simp
next
  case (Cons l ls)
  obtain ev1 els1 err where c: "call l ev els = (ev1, els1, err)"
    by (cases "call l ev els")
  obtain ev2 els2 errs2 where r: "run_listeners ls ev1 els1 = (ev2, els2, errs2)"
    by (cases "run_listeners ls ev1 els1")
  from Cons.prems(2) have l: "l = HamburgerClick (Some h) (Some m) \<or> l = NavLinkClick (Some h) (Some m)"
    and ls: "set ls \<subseteq> {HamburgerClick (Some h) (Some m), NavLinkClick (Some h) (Some m)}"
    by auto
  from call_keeps_equal [OF c l Cons.prems(3,4,5)]
  have eq1: "active els1 h = active els1 m" and err: "err = None" by simp_all
  have len: "length els1 = length els" using c by (rule call_length)
  from Cons.IH [OF r ls] eq1 len Cons.prems(3,4)
  have "active els2 h = active els2 m \<and> errs2 = []" by simp
  moreover from Cons.prems(1) c r err have "els' = els2" "errs = errs2" by simp_all
  ultimately show ?case by simp
qed

subsection \<open>The page after initialisation\<close>

lemma DOMContentLoaded_page:
  assumes "querySelector ''.hamburger'' doc = Some h"
  shows "DOMContentLoaded doc =
           Inr \<lparr>elements = doc,
                listeners = (h, HamburgerClick (Some h) (querySelector ''.nav-menu'' doc)) #
                  map (\<lambda>item. (item, NavLinkClick (Some h) (querySelector ''.nav-menu'' doc)))
                    (querySelectorAll ''.nav-link'' doc)\<rparr>"
  using assms by (simp add: DOMContentLoaded_def Let_def)

lemma listeners_on_map:
  "map snd (filter (\<lambda>(i, l). i = t) (map (\<lambda>item. (item, c)) xs)) = replicate (count_list xs t) c"
  by (induction xs) auto

lemma count_list_distinct: "distinct xs \<Longrightarrow> count_list xs t = (if t \<in> set xs then 1 else 0)"
  by (induction xs) auto

lemma listeners_on_init:
  assumes "querySelector ''.hamburger'' doc = Some h" "DOMContentLoaded doc = Inr pg0"
    and "listeners pg = listeners pg0"
  shows "listeners_on t pg =
           (if t = h then [HamburgerClick (Some h) (querySelector ''.nav-menu'' doc)] else []) @
           (if t \<in> set (querySelectorAll ''.nav-link'' doc)
            then [NavLinkClick (Some h) (querySelector ''.nav-menu'' doc)] else [])"
proof -
  let ?m = "querySelector ''.nav-menu'' doc"
  let ?links = "querySelectorAll ''.nav-link'' doc"
  from assms(2) have "listeners pg0 =
      (h, HamburgerClick (Some h) ?m) # map (\<lambda>item. (item, NavLinkClick (Some h) ?m)) ?links"
    unfolding DOMContentLoaded_page [OF assms(1)] by auto
  with assms(3) have "listeners_on t pg =
      (if t = h then [HamburgerClick (Some h) ?m] else []) @
      map snd (filter (\<lambda>(i, l). i = t) (map (\<lambda>item. (item, NavLinkClick (Some h) ?m)) ?links))"
    by (simp add: listeners_on_def)
  also have "map snd (filter (\<lambda>(i, l). i = t) (map (\<lambda>item. (item, NavLinkClick (Some h) ?m)) ?links))
      = (if t \<in> set ?links then [NavLinkClick (Some h) ?m] else [])"
    unfolding listeners_on_map by (simp add: count_list_distinct querySelectorAll_distinct)
  finally show ?thesis .
qed

lemma click_listeners: "click t pg = (pg', ev, errs) \<Longrightarrow> listeners pg' = listeners pg"
  by (auto simp: click_def split: prod.splits)

lemma click_length: "click t pg = (pg', ev, errs) \<Longrightarrow> length (elements pg') = length (elements pg)"
  by (auto simp: click_def split: prod.splits dest: run_listeners_length)

lemma click_event: "click t pg = (pg', ev, errs) \<Longrightarrow> ev = \<lparr>target = t, defaultPrevented = False\<rparr>"
  by (auto simp: click_def split: prod.splits dest: run_listeners_event)

lemma run_listeners_link:
  assumes "run_listeners ls ev els = (ev', els', errs)"
    and "ls = [NavLinkClick (Some h) (Some m)] \<or>
         ls = [HamburgerClick (Some h) (Some m), NavLinkClick (Some h) (Some m)]"
    and "h < length els" "m < length els"
  shows "errs = [] \<and> \<not> active els' h \<and> \<not> active els' m"
proof -
  obtain els0 ev0 errs0 where
    pre: "ls = [NavLinkClick (Some h) (Some m)] \<and> els0 = els \<and> errs0 = [] \<or>
          ls = [HamburgerClick (Some h) (Some m), NavLinkClick (Some h) (Some m)] \<and>
          hamburger_click (Some h) (Some m) els = (els0, None) \<and> errs0 = []"
    using assms(2) hamburger_click_ok [of h m els]
    by (cases "hamburger_click (Some h) (Some m) els") auto
  have len: "length els0 = length els"
    using pre by (auto dest: hamburger_click_length)
  obtain els1 err1 where n: "nav_link_click (Some h) (Some m) els0 = (els1, err1)"
    by (cases "nav_link_click (Some h) (Some m) els0")
  have "err1 = None" using n by (rule nav_link_click_ok)
  with assms(1) pre n have "els' = els1" "errs = []" by auto
  with nav_link_click_clears [OF n] len assms(3,4) show ?thesis by simp
qed

lemma run_listeners_link_closed:
  assumes "run_listeners ls ev els = (ev', els', errs)"
    and "ls = [NavLinkClick (Some h) (Some m)] \<or>
         ls = [HamburgerClick (Some h) (Some m), NavLinkClick (Some h) (Some m)]"
    and "h < length els" "m < length els" "\<not> active els h" "\<not> active els m"
  shows "els' = els"
  using assms
  by (auto split: prod.splits simp: nav_link_click_closed toggle_then_remove_closed)

lemma link_listeners:
  assumes "querySelector ''.hamburger'' doc = Some h" "querySelector ''.nav-menu'' doc = Some m"
    and "DOMContentLoaded doc = Inr pg0" "listeners pg = listeners pg0"
    and "l \<in> set (querySelectorAll ''.nav-link'' doc)"
  shows "listeners_on l pg = [NavLinkClick (Some h) (Some m)] \<or>
         listeners_on l pg = [HamburgerClick (Some h) (Some m), NavLinkClick (Some h) (Some m)]"
  using assms(2,5) by (simp add: listeners_on_init [OF assms(1,3,4)])

lemma hamburger_click_total:
  obtains els' where "hamburger_click (Some h) (Some m) els = (els', None)"
  using hamburger_click_ok [of h m els]
  by (cases "hamburger_click (Some h) (Some m) els") auto

lemma nav_link_click_total:
  obtains els' where "nav_link_click (Some h) (Some m) els = (els', None)"
  using nav_link_click_ok [of h m els]
  by (cases "nav_link_click (Some h) (Some m) els") auto

lemma hamburger_clicks_markers:
  assumes "h < length els" "m < length els" "h \<noteq> m"
  shows "\<exists>els'. hamburger_clicks n (Some h) (Some m) els = (els', []) \<and>
           length els' = length els \<and>
           active els' h = (active els h \<noteq> odd n) \<and> active els' m = (active els m \<noteq> odd n)"
  using assms
proof (induction n arbitrary: els)
  case 0
  then show ?case by simp
next
  case (Suc n)
  obtain els1 where c: "hamburger_click (Some h) (Some m) els = (els1, None)"
    by (rule hamburger_click_total)
  have len: "length els1 = length els" using c by (rule hamburger_click_length)
  from Suc.prems len have "h < length els1" "m < length els1" by simp_all
  from Suc.IH [OF this \<open>h \<noteq> m\<close>] obtain els' where
    r: "hamburger_clicks n (Some h) (Some m) els1 = (els', [])" "length els' = length els1"
      "active els' h = (active els1 h \<noteq> odd n)" "active els' m = (active els1 m \<noteq> odd n)"
    by blast
  from r c len hamburger_click_flips [OF c Suc.prems] show ?case by auto
qed

lemma hamburger_click_twice:
  assumes "hamburger_click (Some h) (Some m) els = (els1, e1)"
    and "hamburger_click (Some h) (Some m) els1 = (els2, e2)"
    and "i < length els"
  shows "set (classList (els2 ! i)) = set (classList (els ! i))"
proof -
  have "length els1 = length els" using assms(1) by (rule hamburger_click_length)
  with assms(3) show ?thesis
    by (simp add: hamburger_click_classList [OF assms(2)] hamburger_click_classList [OF assms(1)]
        toggle_toggle_set)
qed


subsection \<open>The propagation path\<close>

lemma propagation_path_unfold:
  "propagation_path els t = t # tl (propagation_path els t)"
proof -
  have "\<exists>as. propagation_path els t = t # as"
    by (subst propagation_path.simps) simp
  then show ?thesis by auto
qed

lemma propagation_path_tl:
  "tl (propagation_path els t) =
     (if t < length els
      then (case parentNode (els ! t) of
              None \<Rightarrow> []
            | Some p \<Rightarrow> if p < t then propagation_path els p else [])
      else [])"
  by (subst propagation_path.simps) simp

lemma propagation_path_above:
  "a \<in> set (tl (propagation_path els t)) \<Longrightarrow> a < t"
proof (induction els t rule: propagation_path.induct)
  case (1 doc t)
  from "1.prems" have "a \<in> set (if t < length doc
      then (case parentNode (doc ! t) of
              None \<Rightarrow> []
            | Some p \<Rightarrow> if p < t then propagation_path doc p else [])
      else [])"
    by (simp only: propagation_path_tl [of doc t])
  then obtain p where p: "t < length doc" "parentNode (doc ! t) = Some p" "p < t"
    and a: "a \<in> set (propagation_path doc p)"
    by (cases "t < length doc"; cases "parentNode (doc ! t)") (auto split: if_splits)
  have "propagation_path doc p = p # tl (propagation_path doc p)"
    by (rule propagation_path_unfold)
  with a have "a = p \<or> a \<in> set (tl (propagation_path doc p))"
    by (metis set_ConsD)
  with "1.IH" [OF p] p(3) show ?case by auto
qed

lemma propagation_path_cong:
  assumes "length els' = length els" "\<And>i. parentNode (els' ! i) = parentNode (els ! i)"
  shows "propagation_path els' t = propagation_path els t"
  using assms
proof (induction els t rule: propagation_path.induct)
  case (1 doc t)
  have step: "propagation_path els' p = propagation_path doc p"
    if "t < length doc" "parentNode (doc ! t) = Some p" "p < t" for p
    using "1.IH" [OF that] "1.prems" by simp
  show ?case
    using "1.prems" step
    by (subst propagation_path.simps [of els' t], subst propagation_path.simps [of doc t])
       (auto split: option.splits)
qed

lemma listeners_along_unfold:
  "listeners_along t pg =
     listeners_on t pg @ concat (map (\<lambda>i. listeners_on i pg) (tl (propagation_path (elements pg) t)))"
  unfolding listeners_along_def by (subst propagation_path_unfold) simp

lemma listeners_along_init:
  assumes "querySelector ''.hamburger'' doc = Some h" "DOMContentLoaded doc = Inr pg0"
    and "listeners pg = listeners pg0"
  shows "set (listeners_along t pg) \<subseteq>
           {HamburgerClick (Some h) (querySelector ''.nav-menu'' doc),
            NavLinkClick (Some h) (querySelector ''.nav-menu'' doc)}"
  by (auto simp: listeners_along_def listeners_on_init [OF assms] split: if_splits)

lemma listeners_above_links:
  assumes "querySelector ''.hamburger'' doc = Some h" "DOMContentLoaded doc = Inr pg0"
    and "listeners pg = listeners pg0" "h \<notin> set as"
  shows "set (concat (map (\<lambda>i. listeners_on i pg) as)) \<subseteq>
           {NavLinkClick (Some h) (querySelector ''.nav-menu'' doc)}"
  using assms(4) by (auto simp: listeners_on_init [OF assms(1,2,3)] split: if_splits)

lemma listeners_above_none:
  assumes "querySelector ''.hamburger'' doc = Some h" "DOMContentLoaded doc = Inr pg0"
    and "listeners pg = listeners pg0" "h \<notin> set as"
    and "set as \<inter> set (querySelectorAll ''.nav-link'' doc) = {}"
  shows "concat (map (\<lambda>i. listeners_on i pg) as) = []"
  using assms(4,5) by (auto simp: listeners_on_init [OF assms(1,2,3)])

lemma click_parentNode:
  "click t pg = (pg', ev, errs) \<Longrightarrow> parentNode (elements pg' ! i) = parentNode (elements pg ! i)"
  by (auto simp: click_def split: prod.splits dest: run_listeners_parentNode)

lemma click_propagation_path:
  assumes "click t pg = (pg', ev, errs)"
  shows "propagation_path (elements pg') u = propagation_path (elements pg) u"
  using click_length [OF assms] click_parentNode [OF assms] by (rule propagation_path_cong)

lemma click_listeners_along:
  assumes "click t pg = (pg', ev, errs)"
  shows "listeners_along u pg' = listeners_along u pg"
  using click_listeners [OF assms] click_propagation_path [OF assms]
  by (simp add: listeners_along_def listeners_on_def)

text \<open>
  A click on the toggle control, when neither it nor an element above it is a link item,
  runs the toggle handler and nothing else.
\<close>

lemma click_toggle_control:
  assumes "querySelector ''.hamburger'' doc = Some h" "DOMContentLoaded doc = Inr pg0"
    and "listeners pg = listeners pg0"
    and "set (propagation_path (elements pg) h) \<inter> set (querySelectorAll ''.nav-link'' doc) = {}"
    and "hamburger_click (Some h) (querySelector ''.nav-menu'' doc) (elements pg) = (els', err)"
  shows "click h pg = (pg\<lparr>elements := els'\<rparr>, \<lparr>target = h, defaultPrevented = False\<rparr>,
           (case err of None \<Rightarrow> [] | Some e \<Rightarrow> [e]))"
proof -
  let ?as = "tl (propagation_path (elements pg) h)"
  have path: "propagation_path (elements pg) h = h # ?as"
    by (rule propagation_path_unfold)
  have above: "h \<notin> set ?as" using propagation_path_above [of h "elements pg" h] by auto
  have "set (h # ?as) \<inter> set (querySelectorAll ''.nav-link'' doc) = {}"
    using assms(4) path by simp
  then have links: "set ?as \<inter> set (querySelectorAll ''.nav-link'' doc) = {}"
    and h: "h \<notin> set (querySelectorAll ''.nav-link'' doc)"
    by auto
  have "concat (map (\<lambda>i. listeners_on i pg) ?as) = []"
    using assms(1,2,3) above links by (rule listeners_above_none)
  with h have "listeners_along h pg = [HamburgerClick (Some h) (querySelector ''.nav-menu'' doc)]"
    by (simp add: listeners_along_unfold listeners_on_init [OF assms(1,2,3)])
  with assms(5) show ?thesis by (simp add: click_def)
qed

subsection \<open>Runs of listeners that end with the link handler\<close>

lemma run_listeners_quiet:
  assumes "run_listeners ls ev els = (ev', els', errs)"
    and "set ls \<subseteq> {HamburgerClick (Some h) (Some m), NavLinkClick (Some h) (Some m)}"
  shows "errs = []"
  using assms
proof (induction ls arbitrary: ev els ev' els' errs)
  case Nil
  then show ?case by simp
next
  case (Cons l ls)
  obtain ev1 els1 err where c: "call l ev els = (ev1, els1, err)"
    by (cases "call l ev els")
  obtain ev2 els2 errs2 where r: "run_listeners ls ev1 els1 = (ev2, els2, errs2)"
    by (cases "run_listeners ls ev1 els1")
  from Cons.prems(2) c have "err = None"
    by (auto split: prod.splits dest: hamburger_click_ok nav_link_click_ok)
  moreover from Cons.IH [OF r] Cons.prems(2) have "errs2 = []" by simp
  ultimately show ?case using Cons.prems(1) c r by simp
qed

lemma run_links_closed:
  assumes "set ls \<subseteq> {NavLinkClick (Some h) (Some m)}"
    and "h < length els" "m < length els" "\<not> active els h" "\<not> active els m"
  shows "run_listeners ls ev els = (ev, els, [])"
  using assms(1) by (induction ls) (simp_all add: nav_link_click_closed [OF assms(4,5,2,3)])

lemma run_listeners_ends_closed:
  assumes "run_listeners ls ev els = (ev', els', errs)"
    and "set ls \<subseteq> {HamburgerClick (Some h) (Some m), NavLinkClick (Some h) (Some m)}"
    and "ls \<noteq> []" "last ls = NavLinkClick (Some h) (Some m)"
    and "h < length els" "m < length els"
  shows "\<not> active els' h \<and> \<not> active els' m"
proof -
  from assms(3,4) obtain xs where ls: "ls = xs @ [NavLinkClick (Some h) (Some m)]"
    by (metis append_butlast_last_id)
  obtain ev1 els1 errs1 where x: "run_listeners xs ev els = (ev1, els1, errs1)"
    by (cases "run_listeners xs ev els")
  obtain els2 where n: "nav_link_click (Some h) (Some m) els1 = (els2, None)"
    by (rule nav_link_click_total)
  have len: "length els1 = length els" using x by (rule run_listeners_length)
  from assms(1) x n have "els' = els2" by (simp add: ls run_listeners_append)
  with nav_link_click_clears [OF n] len assms(5,6) show ?thesis by simp
qed

text \<open>
  The link handler forgets what the handlers before it did to the two markers. So what a
  run of listeners that contains the link handler leaves behind depends on the document
  only up to the two markers, and a second such run gives what the first gave.
\<close>

lemma nav_link_click_after_toggle:
  assumes "hamburger_click (Some h) (Some m) els = (els1, e1)"
  shows "nav_link_click (Some h) (Some m) els1 = nav_link_click (Some h) (Some m) els"
proof -
  obtain a where a: "nav_link_click (Some h) (Some m) els1 = (a, None)"
    by (rule nav_link_click_total)
  obtain b where b: "nav_link_click (Some h) (Some m) els = (b, None)"
    by (rule nav_link_click_total)
  have len: "length els1 = length els" using assms by (rule hamburger_click_length)
  have "a = b"
  proof (rule document_eqI)
    show "length a = length b"
      using nav_link_click_length [OF a] nav_link_click_length [OF b] len by simp
  next
    fix i assume "i < length b"
    then have i: "i < length els" using nav_link_click_length [OF b] by simp
    with len show "classList (a ! i) = classList (b ! i)"
      by (simp add: nav_link_click_classList [OF a] nav_link_click_classList [OF b]
          hamburger_click_classList [OF assms] remove_token_def toggle_def)
  next
    fix i
    show "parentNode (a ! i) = parentNode (b ! i)"
      by (simp add: nav_link_click_parentNode [OF a] nav_link_click_parentNode [OF b]
          hamburger_click_parentNode [OF assms])
  qed
  with a b show ?thesis by simp
qed

lemma nav_link_click_twice:
  assumes "nav_link_click (Some h) (Some m) els = (els1, e1)"
  shows "nav_link_click (Some h) (Some m) els1 = (els1, None)"
proof -
  obtain a where a: "nav_link_click (Some h) (Some m) els1 = (a, None)"
    by (rule nav_link_click_total)
  have len: "length els1 = length els" using assms by (rule nav_link_click_length)
  have "a = els1"
  proof (rule document_eqI)
    show "length a = length els1" using a by (rule nav_link_click_length)
  next
    fix i assume "i < length els1"
    with len show "classList (a ! i) = classList (els1 ! i)"
      by (simp add: nav_link_click_classList [OF a] nav_link_click_classList [OF assms]
          remove_token_def)
  next
    fix i
    show "parentNode (a ! i) = parentNode (els1 ! i)"
      by (simp add: nav_link_click_parentNode [OF a])
  qed
  with a show ?thesis by simp
qed

lemma run_listeners_then_link:
  assumes "run_listeners ls ev els = (ev', els', errs)"
    and "set ls \<subseteq> {HamburgerClick (Some h) (Some m), NavLinkClick (Some h) (Some m)}"
  shows "nav_link_click (Some h) (Some m) els' = nav_link_click (Some h) (Some m) els"
  using assms
proof (induction ls arbitrary: ev els ev' els' errs)
  case Nil
  then show ?case by simp
next
  case (Cons l ls)
  obtain ev1 els1 err where c: "call l ev els = (ev1, els1, err)"
    by (cases "call l ev els")
  obtain ev2 els2 errs2 where r: "run_listeners ls ev1 els1 = (ev2, els2, errs2)"
    by (cases "run_listeners ls ev1 els1")
  from Cons.prems(1) c r have e: "els' = els2" by simp
  from Cons.prems(2) have ls: "set ls \<subseteq> {HamburgerClick (Some h) (Some m), NavLinkClick (Some h) (Some m)}"
    by simp
  have "nav_link_click (Some h) (Some m) els1 = nav_link_click (Some h) (Some m) els"
  proof (cases "l = HamburgerClick (Some h) (Some m)")
    case True
    with c show ?thesis by (auto split: prod.splits dest: nav_link_click_after_toggle)
  next
    case False
    with Cons.prems(2) have "l = NavLinkClick (Some h) (Some m)" by simp
    with c obtain e1 where n: "nav_link_click (Some h) (Some m) els = (els1, e1)"
      by (auto split: prod.splits)
    from nav_link_click_twice [OF n] n nav_link_click_ok [OF n] show ?thesis by simp
  qed
  with Cons.IH [OF r ls] e show ?case by simp
qed

lemma run_listeners_same_after_link:
  assumes "set ls \<subseteq> {HamburgerClick (Some h) (Some m), NavLinkClick (Some h) (Some m)}"
    and "NavLinkClick (Some h) (Some m) \<in> set ls"
    and "nav_link_click (Some h) (Some m) els2 = nav_link_click (Some h) (Some m) els"
  shows "run_listeners ls ev els2 = run_listeners ls ev els"
  using assms
proof (induction ls arbitrary: els els2)
  case Nil
  then show ?case by simp
next
  case (Cons l ls)
  show ?case
  proof (cases "l = NavLinkClick (Some h) (Some m)")
    case True
    with Cons.prems(3) show ?thesis by simp
  next
    case False
    with Cons.prems(1,2) have l: "l = HamburgerClick (Some h) (Some m)"
      and ls: "set ls \<subseteq> {HamburgerClick (Some h) (Some m), NavLinkClick (Some h) (Some m)}"
      and mem: "NavLinkClick (Some h) (Some m) \<in> set ls"
      by auto
    obtain a where a: "hamburger_click (Some h) (Some m) els = (a, None)"
      by (rule hamburger_click_total)
    obtain b where b: "hamburger_click (Some h) (Some m) els2 = (b, None)"
      by (rule hamburger_click_total)
    have "nav_link_click (Some h) (Some m) b = nav_link_click (Some h) (Some m) a"
      using nav_link_click_after_toggle [OF a] nav_link_click_after_toggle [OF b] Cons.prems(3)
      by simp
    from Cons.IH [OF ls mem this] a b l show ?thesis by simp
  qed
qed

section \<open>Evaluation on concrete pages\<close>

lemmas eval_defs =
  DOMContentLoaded_def querySelector_def querySelectorAll_def Let_def click_def listeners_on_def
  listeners_along_def propagation_path.simps
  hamburger_click_def nav_link_click_def classList_toggle_def classList_remove_def
  toggle_def remove_token_def active_def contains_def upt_rec

section \<open>The claims\<close>

text \<open>
  C1. Starting from a document in which neither the toggle control nor the menu panel
  carries \<^verbatim>\<open>active\<close>, the two markers are equal in every page reachable from the
  initialised page by clicks: the equality is an invariant of the step relation.
\<close>

theorem markers_equal_invariant:
  assumes "querySelector ''.hamburger'' doc = Some h" "querySelector ''.nav-menu'' doc = Some m"
    and "\<not> active doc h" "\<not> active doc m"
    and "DOMContentLoaded doc = Inr pg0" "reachable pg0 pg"
  shows "active (elements pg) h = active (elements pg) m"
proof -
  have h: "h < length doc" and m: "m < length doc"
    using assms(1,2) by (auto dest: querySelector_lt)
  have pg0: "elements pg0 = doc"
    using assms(5) unfolding DOMContentLoaded_page [OF assms(1)] by auto
  from assms(6)
  have "listeners pg = listeners pg0 \<and> length (elements pg) = length doc \<and>
        active (elements pg) h = active (elements pg) m"
  proof (induction rule: reachable.induct)
    case reachable_init
    show ?case using assms(3,4) pg0 by simp
  next
    case (reachable_step pg pg')
    then have inv: "listeners pg = listeners pg0" "length (elements pg) = length doc"
      "active (elements pg) h = active (elements pg) m" by simp_all
    from \<open>step pg pg'\<close> obtain t ev errs where c: "click t pg = (pg', ev, errs)"
      by (auto elim: step.cases)
    obtain ev1 els1 errs1 where
      r: "run_listeners (listeners_along t pg) \<lparr>target = t, defaultPrevented = False\<rparr> (elements pg) = (ev1, els1, errs1)"
      by (cases "run_listeners (listeners_along t pg) \<lparr>target = t, defaultPrevented = False\<rparr> (elements pg)")
    with c have els: "elements pg' = els1" by (auto simp: click_def)
    have sub: "set (listeners_along t pg) \<subseteq> {HamburgerClick (Some h) (Some m), NavLinkClick (Some h) (Some m)}"
      using assms(2) listeners_along_init [OF assms(1,5) inv(1), of t] by simp
    from run_listeners_keeps_equal [OF r sub] inv(2,3) h m
    have "active els1 h = active els1 m" by simp
    with click_listeners [OF c] click_length [OF c] inv els show ?case by simp
  qed
  then show ?thesis by simp
qed

theorem markers_equal_invariant_witness:
  "querySelector ''.hamburger''
     [\<lparr>classList = [''hamburger''], parentNode = None\<rparr>, \<lparr>classList = [''nav-menu''], parentNode = None\<rparr>,
      \<lparr>classList = [''nav-link''], parentNode = None\<rparr>] = Some 0 \<and>
   querySelector ''.nav-menu''
     [\<lparr>classList = [''hamburger''], parentNode = None\<rparr>, \<lparr>classList = [''nav-menu''], parentNode = None\<rparr>,
      \<lparr>classList = [''nav-link''], parentNode = None\<rparr>] = Some 1 \<and>
   \<not> active
     [\<lparr>classList = [''hamburger''], parentNode = None\<rparr>, \<lparr>classList = [''nav-menu''], parentNode = None\<rparr>,
      \<lparr>classList = [''nav-link''], parentNode = None\<rparr>] 0 \<and>
   \<not> active
     [\<lparr>classList = [''hamburger''], parentNode = None\<rparr>, \<lparr>classList = [''nav-menu''], parentNode = None\<rparr>,
      \<lparr>classList = [''nav-link''], parentNode = None\<rparr>] 1 \<and>
   DOMContentLoaded
     [\<lparr>classList = [''hamburger''], parentNode = None\<rparr>, \<lparr>classList = [''nav-menu''], parentNode = None\<rparr>,
      \<lparr>classList = [''nav-link''], parentNode = None\<rparr>] =
     Inr \<lparr>elements = [\<lparr>classList = [''hamburger''], parentNode = None\<rparr>, \<lparr>classList = [''nav-menu''], parentNode = None\<rparr>,
                       \<lparr>classList = [''nav-link''], parentNode = None\<rparr>],
          listeners = [(0, HamburgerClick (Some 0) (Some 1)), (2, NavLinkClick (Some 0) (Some 1))]\<rparr> \<and>
   reachable
     \<lparr>elements = [\<lparr>classList = [''hamburger''], parentNode = None\<rparr>, \<lparr>classList = [''nav-menu''], parentNode = None\<rparr>,
                  \<lparr>classList = [''nav-link''], parentNode = None\<rparr>],
      listeners = [(0, HamburgerClick (Some 0) (Some 1)), (2, NavLinkClick (Some 0) (Some 1))]\<rparr>
     \<lparr>elements = [\<lparr>classList = [''hamburger'', ''active''], parentNode = None\<rparr>,
                  \<lparr>classList = [''nav-menu'', ''active''], parentNode = None\<rparr>,
                  \<lparr>classList = [''nav-link''], parentNode = None\<rparr>],
      listeners = [(0, HamburgerClick (Some 0) (Some 1)), (2, NavLinkClick (Some 0) (Some 1))]\<rparr> \<and>
   active (elements
     \<lparr>elements = [\<lparr>classList = [''hamburger'', ''active''], parentNode = None\<rparr>,
                  \<lparr>classList = [''nav-menu'', ''active''], parentNode = None\<rparr>,
                  \<lparr>classList = [''nav-link''], parentNode = None\<rparr>],
      listeners = [(0, HamburgerClick (Some 0) (Some 1)), (2, NavLinkClick (Some 0) (Some 1))]\<rparr>) 0 =
   active (elements
     \<lparr>elements = [\<lparr>classList = [''hamburger'', ''active''], parentNode = None\<rparr>,
                  \<lparr>classList = [''nav-menu'', ''active''], parentNode = None\<rparr>,
                  \<lparr>classList = [''nav-link''], parentNode = None\<rparr>],
      listeners = [(0, HamburgerClick (Some 0) (Some 1)), (2, NavLinkClick (Some 0) (Some 1))]\<rparr>) 1"
proof -
  let ?doc = "[\<lparr>classList = [''hamburger''], parentNode = None\<rparr>, \<lparr>classList = [''nav-menu''], parentNode = None\<rparr>,
               \<lparr>classList = [''nav-link''], parentNode = None\<rparr>]"
  let ?ls = "[(0, HamburgerClick (Some 0) (Some 1)), (2::nat, NavLinkClick (Some 0) (Some 1))]"
  let ?pg0 = "\<lparr>elements = ?doc, listeners = ?ls\<rparr>"
  let ?pg1 = "\<lparr>elements = [\<lparr>classList = [''hamburger'', ''active''], parentNode = None\<rparr>,
                             \<lparr>classList = [''nav-menu'', ''active''], parentNode = None\<rparr>,
                             \<lparr>classList = [''nav-link''], parentNode = None\<rparr>], listeners = ?ls\<rparr>"
  have a: "querySelector ''.hamburger'' ?doc = Some 0"
    and b: "querySelector ''.nav-menu'' ?doc = Some 1"
    and c: "\<not> active ?doc 0" and d: "\<not> active ?doc 1"
    and e: "DOMContentLoaded ?doc = Inr ?pg0"
    by (simp_all add: eval_defs)
  have "click 0 ?pg0 = (?pg1, \<lparr>target = 0, defaultPrevented = False\<rparr>, [])"
    by (simp add: eval_defs)
  then have "step ?pg0 ?pg1" by (rule step_click)
  with reachable_init have f: "reachable ?pg0 ?pg1" by (rule reachable_step)
  from markers_equal_invariant [OF a b c d e f] a b c d e f show ?thesis by blast
qed



text \<open>
  C3, as the specification states it: a click on any link item leaves both markers absent,
  whatever the state before. It does not when the link item lies inside the toggle
  control: the click runs the link handler on the link item and then, bubbling, the toggle
  handler on the toggle control. On the page below (the link item is a child of the toggle
  control, both markers absent) the click ends with both markers present.
\<close>

theorem link_click_nested_counterexample:
  "querySelector ''.hamburger''
     [\<lparr>classList = [''hamburger''], parentNode = None\<rparr>,
      \<lparr>classList = [''nav-link''], parentNode = Some 0\<rparr>,
      \<lparr>classList = [''nav-menu''], parentNode = None\<rparr>] = Some 0 \<and>
   querySelector ''.nav-menu''
     [\<lparr>classList = [''hamburger''], parentNode = None\<rparr>,
      \<lparr>classList = [''nav-link''], parentNode = Some 0\<rparr>,
      \<lparr>classList = [''nav-menu''], parentNode = None\<rparr>] = Some 2 \<and>
   querySelectorAll ''.nav-link''
     [\<lparr>classList = [''hamburger''], parentNode = None\<rparr>,
      \<lparr>classList = [''nav-link''], parentNode = Some 0\<rparr>,
      \<lparr>classList = [''nav-menu''], parentNode = None\<rparr>] = [1] \<and>
   DOMContentLoaded
     [\<lparr>classList = [''hamburger''], parentNode = None\<rparr>,
      \<lparr>classList = [''nav-link''], parentNode = Some 0\<rparr>,
      \<lparr>classList = [''nav-menu''], parentNode = None\<rparr>] =
     Inr \<lparr>elements = [\<lparr>classList = [''hamburger''], parentNode = None\<rparr>,
                       \<lparr>classList = [''nav-link''], parentNode = Some 0\<rparr>,
                       \<lparr>classList = [''nav-menu''], parentNode = None\<rparr>],
          listeners = [(0, HamburgerClick (Some 0) (Some 2)), (1, NavLinkClick (Some 0) (Some 2))]\<rparr> \<and>
   click 1
     \<lparr>elements = [\<lparr>classList = [''hamburger''], parentNode = None\<rparr>,
                  \<lparr>classList = [''nav-link''], parentNode = Some 0\<rparr>,
                  \<lparr>classList = [''nav-menu''], parentNode = None\<rparr>],
      listeners = [(0, HamburgerClick (Some 0) (Some 2)), (1, NavLinkClick (Some 0) (Some 2))]\<rparr> =
     (\<lparr>elements = [\<lparr>classList = [''hamburger'', ''active''], parentNode = None\<rparr>,
                   \<lparr>classList = [''nav-link''], parentNode = Some 0\<rparr>,
                   \<lparr>classList = [''nav-menu'', ''active''], parentNode = None\<rparr>],
       listeners = [(0, HamburgerClick (Some 0) (Some 2)), (1, NavLinkClick (Some 0) (Some 2))]\<rparr>,
      \<lparr>target = 1, defaultPrevented = False\<rparr>, []) \<and>
   active [\<lparr>classList = [''hamburger'', ''active''], parentNode = None\<rparr>,
           \<lparr>classList = [''nav-link''], parentNode = Some 0\<rparr>,
           \<lparr>classList = [''nav-menu'', ''active''], parentNode = None\<rparr>] 0 \<and>
   active [\<lparr>classList = [''hamburger'', ''active''], parentNode = None\<rparr>,
           \<lparr>classList = [''nav-link''], parentNode = Some 0\<rparr>,
           \<lparr>classList = [''nav-menu'', ''active''], parentNode = None\<rparr>] 2"
  by (simp add: eval_defs)

text \<open>
  C3, amended: in any state of the page, the link handler runs without exception and
  leaves both markers absent; and a click on a link item that does not lie inside the
  toggle control reports no exception and leaves both markers absent, whatever the state
  before.
\<close>

theorem link_click_closes:
  assumes "querySelector ''.hamburger'' doc = Some h" "querySelector ''.nav-menu'' doc = Some m"
    and "DOMContentLoaded doc = Inr pg0"
    and "l \<in> set (querySelectorAll ''.nav-link'' doc)"
    and "listeners pg = listeners pg0" "length (elements pg) = length doc"
  shows "(\<exists>els'. call (NavLinkClick (Some h) (Some m)) ev (elements pg) = (ev, els', None) \<and>
            \<not> active els' h \<and> \<not> active els' m) \<and>
         (h \<notin> set (tl (propagation_path (elements pg) l)) \<longrightarrow>
            (\<exists>pg' ev'. click l pg = (pg', ev', []) \<and>
               \<not> active (elements pg') h \<and> \<not> active (elements pg') m))"
proof (intro conjI impI)
  have h: "h < length (elements pg)" and m: "m < length (elements pg)"
    using assms(1,2,6) by (auto dest: querySelector_lt)
  obtain els' where n: "nav_link_click (Some h) (Some m) (elements pg) = (els', None)"
    by (rule nav_link_click_total)
  with nav_link_click_clears [OF n h m]
  show "\<exists>els'. call (NavLinkClick (Some h) (Some m)) ev (elements pg) = (ev, els', None) \<and>
          \<not> active els' h \<and> \<not> active els' m"
    by simp
  assume out: "h \<notin> set (tl (propagation_path (elements pg) l))"
  let ?above = "concat (map (\<lambda>i. listeners_on i pg) (tl (propagation_path (elements pg) l)))"
  let ?ls = "listeners_along l pg"
  have ls: "?ls = listeners_on l pg @ ?above"
    by (rule listeners_along_unfold)
  have above: "set ?above \<subseteq> {NavLinkClick (Some h) (Some m)}"
    using listeners_above_links [OF assms(1,3,5) out] assms(2) by simp
  note target = link_listeners [OF assms(1,2,3,5,4)]
  have sub: "set ?ls \<subseteq> {HamburgerClick (Some h) (Some m), NavLinkClick (Some h) (Some m)}"
    using listeners_along_init [OF assms(1,3,5), of l] assms(2) by simp
  have ne: "?ls \<noteq> []" using target ls by auto
  have "last ?ls = NavLinkClick (Some h) (Some m)"
  proof (cases "?above = []")
    case True
    with target ls show ?thesis by auto
  next
    case False
    then have "last ?ls = last ?above" using ls by simp
    moreover have "last ?above \<in> set ?above" using False by (rule last_in_set)
    ultimately show ?thesis using above by auto
  qed
  note last = this
  obtain ev1 els1 errs1 where
    r: "run_listeners ?ls \<lparr>target = l, defaultPrevented = False\<rparr> (elements pg) = (ev1, els1, errs1)"
    by (cases "run_listeners ?ls \<lparr>target = l, defaultPrevented = False\<rparr> (elements pg)")
  have "errs1 = []" using r sub by (rule run_listeners_quiet)
  moreover have "\<not> active els1 h \<and> \<not> active els1 m"
    using r sub ne last h m by (rule run_listeners_ends_closed)
  ultimately show "\<exists>pg' ev'. click l pg = (pg', ev', []) \<and>
      \<not> active (elements pg') h \<and> \<not> active (elements pg') m"
    using r by (simp add: click_def)
qed

theorem link_click_closes_witness:
  "querySelector ''.hamburger''
     [\<lparr>classList = [''hamburger'', ''active''], parentNode = None\<rparr>,
      \<lparr>classList = [''nav-menu''], parentNode = None\<rparr>,
      \<lparr>classList = [''nav-link''], parentNode = Some 1\<rparr>] = Some 0 \<and>
   querySelector ''.nav-menu''
     [\<lparr>classList = [''hamburger'', ''active''], parentNode = None\<rparr>,
      \<lparr>classList = [''nav-menu''], parentNode = None\<rparr>,
      \<lparr>classList = [''nav-link''], parentNode = Some 1\<rparr>] = Some 1 \<and>
   DOMContentLoaded
     [\<lparr>classList = [''hamburger'', ''active''], parentNode = None\<rparr>,
      \<lparr>classList = [''nav-menu''], parentNode = None\<rparr>,
      \<lparr>classList = [''nav-link''], parentNode = Some 1\<rparr>] =
     Inr \<lparr>elements = [\<lparr>classList = [''hamburger'', ''active''], parentNode = None\<rparr>,
                       \<lparr>classList = [''nav-menu''], parentNode = None\<rparr>,
                       \<lparr>classList = [''nav-link''], parentNode = Some 1\<rparr>],
          listeners = [(0, HamburgerClick (Some 0) (Some 1)), (2, NavLinkClick (Some 0) (Some 1))]\<rparr> \<and>
   2 \<in> set (querySelectorAll ''.nav-link''
     [\<lparr>classList = [''hamburger'', ''active''], parentNode = None\<rparr>,
      \<lparr>classList = [''nav-menu''], parentNode = None\<rparr>,
      \<lparr>classList = [''nav-link''], parentNode = Some 1\<rparr>]) \<and>
   0 \<notin> set (tl (propagation_path
     [\<lparr>classList = [''hamburger'', ''active''], parentNode = None\<rparr>,
      \<lparr>classList = [''nav-menu''], parentNode = None\<rparr>,
      \<lparr>classList = [''nav-link''], parentNode = Some 1\<rparr>] 2)) \<and>
   (\<exists>pg' ev. click 2
      \<lparr>elements = [\<lparr>classList = [''hamburger'', ''active''], parentNode = None\<rparr>,
                   \<lparr>classList = [''nav-menu''], parentNode = None\<rparr>,
                   \<lparr>classList = [''nav-link''], parentNode = Some 1\<rparr>],
       listeners = [(0, HamburgerClick (Some 0) (Some 1)), (2, NavLinkClick (Some 0) (Some 1))]\<rparr>
      = (pg', ev, []) \<and> \<not> active (elements pg') 0 \<and> \<not> active (elements pg') 1)"
proof -
  let ?doc = "[\<lparr>classList = [''hamburger'', ''active''], parentNode = None\<rparr>,
               \<lparr>classList = [''nav-menu''], parentNode = None\<rparr>,
               \<lparr>classList = [''nav-link''], parentNode = Some 1\<rparr>]"
  let ?pg0 = "\<lparr>elements = ?doc,
    listeners = [(0, HamburgerClick (Some 0) (Some 1)), (2::nat, NavLinkClick (Some 0) (Some 1))]\<rparr>"
  have a: "querySelector ''.hamburger'' ?doc = Some 0"
    and b: "querySelector ''.nav-menu'' ?doc = Some 1"
    and c: "DOMContentLoaded ?doc = Inr ?pg0"
    and d: "2 \<in> set (querySelectorAll ''.nav-link'' ?doc)"
    and e: "listeners ?pg0 = listeners ?pg0" and f: "length (elements ?pg0) = length ?doc"
    and g: "0 \<notin> set (tl (propagation_path ?doc 2))"
    by (simp_all add: eval_defs)
  have sel: "elements ?pg0 = ?doc" by simp
  from link_click_closes [OF a b c d e f] g
  have "\<exists>pg' ev. click 2 ?pg0 = (pg', ev, []) \<and>
          \<not> active (elements pg') 0 \<and> \<not> active (elements pg') 1"
    unfolding sel by blast
  with a b c d g show ?thesis by blast
qed

text \<open>
  C4. With the toggle control and the menu panel two elements of the document: \<open>n\<close> runs
  of the toggle handler from the Closed state end without exception with both markers
  present when \<open>n\<close> is odd and both absent when \<open>n\<close> is even; and two runs from any state
  end without exception with both markers as they were, every element carrying the classes
  it carried, and every other element unchanged.
\<close>

theorem toggle_clicks_parity:
  assumes "h < length els" "m < length els" "h \<noteq> m"
  shows "(\<not> active els h \<and> \<not> active els m \<longrightarrow>
            (\<exists>els'. hamburger_clicks n (Some h) (Some m) els = (els', []) \<and>
                     active els' h = odd n \<and> active els' m = odd n)) \<and>
         (\<exists>els''. hamburger_clicks 2 (Some h) (Some m) els = (els'', []) \<and>
                   active els'' h = active els h \<and> active els'' m = active els m \<and>
                   length els'' = length els \<and>
                   (\<forall>i<length els. set (classList (els'' ! i)) = set (classList (els ! i))) \<and>
                   (\<forall>i<length els. i \<noteq> h \<and> i \<noteq> m \<longrightarrow> els'' ! i = els ! i))"
proof (intro conjI impI)
  assume "\<not> active els h \<and> \<not> active els m"
  with hamburger_clicks_markers [OF assms, of n]
  show "\<exists>els'. hamburger_clicks n (Some h) (Some m) els = (els', []) \<and>
          active els' h = odd n \<and> active els' m = odd n"
    by auto
next
  obtain els1 where c1: "hamburger_click (Some h) (Some m) els = (els1, None)"
    by (rule hamburger_click_total)
  obtain els2 where c2: "hamburger_click (Some h) (Some m) els1 = (els2, None)"
    by (rule hamburger_click_total)
  have len1: "length els1 = length els" using c1 by (rule hamburger_click_length)
  have len2: "length els2 = length els1" using c2 by (rule hamburger_click_length)
  have run: "hamburger_clicks 2 (Some h) (Some m) els = (els2, [])"
    using c1 c2 by (simp add: numeral_2_eq_2)
  have f1: "active els1 h = (\<not> active els h)" "active els1 m = (\<not> active els m)"
    using hamburger_click_flips [OF c1 assms] by simp_all
  have f2: "active els2 h = (\<not> active els1 h)" "active els2 m = (\<not> active els1 m)"
    using hamburger_click_flips [OF c2] assms len1 by simp_all
  have sets: "\<forall>i<length els. set (classList (els2 ! i)) = set (classList (els ! i))"
    using hamburger_click_twice [OF c1 c2] by simp
  have others: "\<forall>i<length els. i \<noteq> h \<and> i \<noteq> m \<longrightarrow> els2 ! i = els ! i"
    using hamburger_click_other [OF c1] hamburger_click_other [OF c2] by simp
  from run f1 f2 len1 len2 sets others
  show "\<exists>els''. hamburger_clicks 2 (Some h) (Some m) els = (els'', []) \<and>
          active els'' h = active els h \<and> active els'' m = active els m \<and>
          length els'' = length els \<and>
          (\<forall>i<length els. set (classList (els'' ! i)) = set (classList (els ! i))) \<and>
          (\<forall>i<length els. i \<noteq> h \<and> i \<noteq> m \<longrightarrow> els'' ! i = els ! i)"
    by simp
qed

theorem toggle_clicks_parity_witness:
  "(0::nat) < length [\<lparr>classList = [''hamburger''], parentNode = None\<rparr>, \<lparr>classList = [''nav-menu''], parentNode = None\<rparr>] \<and>
   (1::nat) < length [\<lparr>classList = [''hamburger''], parentNode = None\<rparr>, \<lparr>classList = [''nav-menu''], parentNode = None\<rparr>] \<and>
   (0::nat) \<noteq> 1 \<and>
   \<not> active [\<lparr>classList = [''hamburger''], parentNode = None\<rparr>, \<lparr>classList = [''nav-menu''], parentNode = None\<rparr>] 0 \<and>
   \<not> active [\<lparr>classList = [''hamburger''], parentNode = None\<rparr>, \<lparr>classList = [''nav-menu''], parentNode = None\<rparr>] 1 \<and>
   hamburger_clicks 3 (Some 0) (Some 1) [\<lparr>classList = [''hamburger''], parentNode = None\<rparr>, \<lparr>classList = [''nav-menu''], parentNode = None\<rparr>] =
     ([\<lparr>classList = [''hamburger'', ''active''], parentNode = None\<rparr>, \<lparr>classList = [''nav-menu'', ''active''], parentNode = None\<rparr>], []) \<and>
   active [\<lparr>classList = [''hamburger'', ''active''], parentNode = None\<rparr>, \<lparr>classList = [''nav-menu'', ''active''], parentNode = None\<rparr>] 0 = odd (3::nat) \<and>
   active [\<lparr>classList = [''hamburger'', ''active''], parentNode = None\<rparr>, \<lparr>classList = [''nav-menu'', ''active''], parentNode = None\<rparr>] 1 = odd (3::nat)"
proof -
  let ?els = "[\<lparr>classList = [''hamburger''], parentNode = None\<rparr>, \<lparr>classList = [''nav-menu''], parentNode = None\<rparr>]"
  let ?els' = "[\<lparr>classList = [''hamburger'', ''active''], parentNode = None\<rparr>, \<lparr>classList = [''nav-menu'', ''active''], parentNode = None\<rparr>]"
  have a: "(0::nat) < length ?els" and b: "(1::nat) < length ?els" and c: "(0::nat) \<noteq> 1"
    by simp_all
  have d: "\<not> active ?els 0" and e: "\<not> active ?els 1"
    by (simp_all add: eval_defs)
  have r: "hamburger_clicks 3 (Some 0) (Some 1) ?els = (?els', [])"
    by (simp add: eval_defs numeral_3_eq_3)
  from toggle_clicks_parity [OF a b c, of 3] d e r
  have "active ?els' 0 = odd (3::nat) \<and> active ?els' 1 = odd (3::nat)"
    by auto
  with a b c d e r show ?thesis by blast
qed

text \<open>
  C5, as the specification states it: if the lookup of the toggle control or of the menu
  panel yields \<^verbatim>\<open>null\<close>, the initialisation fails. It does not when only the menu panel
  is missing: the page below has a toggle control and no menu panel, and the
  initialisation returns with the toggle listener registered.
\<close>

theorem init_fails_counterexample:
  "querySelector ''.nav-menu'' [\<lparr>classList = [''hamburger''], parentNode = None\<rparr>] = None \<and>
   DOMContentLoaded [\<lparr>classList = [''hamburger''], parentNode = None\<rparr>] =
     Inr \<lparr>elements = [\<lparr>classList = [''hamburger''], parentNode = None\<rparr>],
          listeners = [(0, HamburgerClick (Some 0) None)]\<rparr>"
  by (simp add: eval_defs)

text \<open>
  C5, amended: if the lookup of the toggle control yields \<^verbatim>\<open>null\<close>, the initialisation
  fails with a TypeError, whatever the other two lookups yield; the failure is the result
  of the initialisation itself, and no page with listeners comes out of it.
\<close>

theorem init_fails_without_toggle:
  assumes "querySelector ''.hamburger'' doc = None"
  shows "DOMContentLoaded doc = Inl TypeError"
  using assms by (simp add: DOMContentLoaded_def)

theorem init_fails_without_toggle_witness:
  "querySelector ''.hamburger'' [\<lparr>classList = [''nav-menu''], parentNode = None\<rparr>, \<lparr>classList = [''nav-link''], parentNode = None\<rparr>] = None \<and>
   DOMContentLoaded [\<lparr>classList = [''nav-menu''], parentNode = None\<rparr>, \<lparr>classList = [''nav-link''], parentNode = None\<rparr>] = Inl TypeError"
proof -
  have a: "querySelector ''.hamburger'' [\<lparr>classList = [''nav-menu''], parentNode = None\<rparr>, \<lparr>classList = [''nav-link''], parentNode = None\<rparr>] = None"
    by (simp add: eval_defs)
  from init_fails_without_toggle [OF a] a show ?thesis by blast
qed

text \<open>
  C6, as the specification states it: a click on any link item while both markers are
  absent changes nothing. It does when the link item lies inside the toggle control: after
  the link handler, which finds nothing to remove, the click bubbles to the toggle handler.
  On the page below (the link item two levels below the toggle control, both markers
  absent) the click ends with both markers present.
\<close>

theorem link_click_closed_nested_counterexample:
  "\<not> active
     [\<lparr>classList = [''hamburger''], parentNode = None\<rparr>,
      \<lparr>classList = [''bar''], parentNode = Some 0\<rparr>,
      \<lparr>classList = [''nav-link''], parentNode = Some 1\<rparr>,
      \<lparr>classList = [''nav-menu''], parentNode = None\<rparr>] 0 \<and>
   \<not> active
     [\<lparr>classList = [''hamburger''], parentNode = None\<rparr>,
      \<lparr>classList = [''bar''], parentNode = Some 0\<rparr>,
      \<lparr>classList = [''nav-link''], parentNode = Some 1\<rparr>,
      \<lparr>classList = [''nav-menu''], parentNode = None\<rparr>] 3 \<and>
   querySelectorAll ''.nav-link''
     [\<lparr>classList = [''hamburger''], parentNode = None\<rparr>,
      \<lparr>classList = [''bar''], parentNode = Some 0\<rparr>,
      \<lparr>classList = [''nav-link''], parentNode = Some 1\<rparr>,
      \<lparr>classList = [''nav-menu''], parentNode = None\<rparr>] = [2] \<and>
   DOMContentLoaded
     [\<lparr>classList = [''hamburger''], parentNode = None\<rparr>,
      \<lparr>classList = [''bar''], parentNode = Some 0\<rparr>,
      \<lparr>classList = [''nav-link''], parentNode = Some 1\<rparr>,
      \<lparr>classList = [''nav-menu''], parentNode = None\<rparr>] =
     Inr \<lparr>elements = [\<lparr>classList = [''hamburger''], parentNode = None\<rparr>,
                       \<lparr>classList = [''bar''], parentNode = Some 0\<rparr>,
                       \<lparr>classList = [''nav-link''], parentNode = Some 1\<rparr>,
                       \<lparr>classList = [''nav-menu''], parentNode = None\<rparr>],
          listeners = [(0, HamburgerClick (Some 0) (Some 3)), (2, NavLinkClick (Some 0) (Some 3))]\<rparr> \<and>
   click 2
     \<lparr>elements = [\<lparr>classList = [''hamburger''], parentNode = None\<rparr>,
                  \<lparr>classList = [''bar''], parentNode = Some 0\<rparr>,
                  \<lparr>classList = [''nav-link''], parentNode = Some 1\<rparr>,
                  \<lparr>classList = [''nav-menu''], parentNode = None\<rparr>],
      listeners = [(0, HamburgerClick (Some 0) (Some 3)), (2, NavLinkClick (Some 0) (Some 3))]\<rparr> =
     (\<lparr>elements = [\<lparr>classList = [''hamburger'', ''active''], parentNode = None\<rparr>,
                   \<lparr>classList = [''bar''], parentNode = Some 0\<rparr>,
                   \<lparr>classList = [''nav-link''], parentNode = Some 1\<rparr>,
                   \<lparr>classList = [''nav-menu'', ''active''], parentNode = None\<rparr>],
       listeners = [(0, HamburgerClick (Some 0) (Some 3)), (2, NavLinkClick (Some 0) (Some 3))]\<rparr>,
      \<lparr>target = 2, defaultPrevented = False\<rparr>, []) \<and>
   active [\<lparr>classList = [''hamburger'', ''active''], parentNode = None\<rparr>,
           \<lparr>classList = [''bar''], parentNode = Some 0\<rparr>,
           \<lparr>classList = [''nav-link''], parentNode = Some 1\<rparr>,
           \<lparr>classList = [''nav-menu'', ''active''], parentNode = None\<rparr>] 0 \<and>
   active [\<lparr>classList = [''hamburger'', ''active''], parentNode = None\<rparr>,
           \<lparr>classList = [''bar''], parentNode = Some 0\<rparr>,
           \<lparr>classList = [''nav-link''], parentNode = Some 1\<rparr>,
           \<lparr>classList = [''nav-menu'', ''active''], parentNode = None\<rparr>] 3"
  by (simp add: eval_defs)

text \<open>
  C6, amended: while both markers are absent the link handler changes nothing, and a click
  on a link item that does not lie inside the toggle control reports no exception and
  leaves the page exactly as it was. In any state, a second run of the link handler gives
  what the first gave, and so does a second click on any link item.
\<close>

theorem link_click_closed_noop:
  assumes "querySelector ''.hamburger'' doc = Some h" "querySelector ''.nav-menu'' doc = Some m"
    and "DOMContentLoaded doc = Inr pg0"
    and "l \<in> set (querySelectorAll ''.nav-link'' doc)"
    and "listeners pg = listeners pg0" "length (elements pg) = length doc"
  shows "(\<not> active (elements pg) h \<and> \<not> active (elements pg) m \<longrightarrow>
            nav_link_click (Some h) (Some m) (elements pg) = (elements pg, None)) \<and>
         (\<not> active (elements pg) h \<and> \<not> active (elements pg) m \<and>
          h \<notin> set (tl (propagation_path (elements pg) l)) \<longrightarrow>
            click l pg = (pg, \<lparr>target = l, defaultPrevented = False\<rparr>, [])) \<and>
         nav_link_click (Some h) (Some m) (fst (nav_link_click (Some h) (Some m) (elements pg))) =
           nav_link_click (Some h) (Some m) (elements pg) \<and>
         click l (fst (click l pg)) = click l pg"
proof -
  let ?ev = "\<lparr>target = l, defaultPrevented = False\<rparr>"
  let ?HC = "HamburgerClick (Some h) (Some m)" and ?NLC = "NavLinkClick (Some h) (Some m)"
  have h: "h < length (elements pg)" and m: "m < length (elements pg)"
    using assms(1,2,6) by (auto dest: querySelector_lt)
  note target = link_listeners [OF assms(1,2,3,5,4)]
  have unfold: "listeners_along l pg = listeners_on l pg @
      concat (map (\<lambda>i. listeners_on i pg) (tl (propagation_path (elements pg) l)))"
    by (rule listeners_along_unfold)
  have sub: "set (listeners_along l pg) \<subseteq> {?HC, ?NLC}"
    using listeners_along_init [OF assms(1,3,5), of l] assms(2) by simp
  have mem: "?NLC \<in> set (listeners_along l pg)"
    using target unfold by auto

  have handler: "nav_link_click (Some h) (Some m) (elements pg) = (elements pg, None)"
    if "\<not> active (elements pg) h \<and> \<not> active (elements pg) m"
    using that h m by (simp add: nav_link_click_closed)

  have noop: "click l pg = (pg, ?ev, [])"
    if cl: "\<not> active (elements pg) h \<and> \<not> active (elements pg) m \<and>
           h \<notin> set (tl (propagation_path (elements pg) l))"
  proof -
    from cl have c: "\<not> active (elements pg) h" "\<not> active (elements pg) m"
      "h \<notin> set (tl (propagation_path (elements pg) l))"
      by simp_all
    let ?above = "concat (map (\<lambda>i. listeners_on i pg) (tl (propagation_path (elements pg) l)))"
    have above: "set ?above \<subseteq> {?NLC}"
      using listeners_above_links [OF assms(1,3,5) c(3)] assms(2) by simp
    obtain ev1 els1 errs1 where
      r: "run_listeners (listeners_on l pg) ?ev (elements pg) = (ev1, els1, errs1)"
      by (cases "run_listeners (listeners_on l pg) ?ev (elements pg)")
    have "errs1 = []" using run_listeners_link [OF r target h m] by simp
    moreover have "els1 = elements pg"
      using r target h m c(1,2) by (rule run_listeners_link_closed)
    moreover have "ev1 = ?ev" using r by (rule run_listeners_event)
    ultimately have first: "run_listeners (listeners_on l pg) ?ev (elements pg) = (?ev, elements pg, [])"
      using r by simp
    have "run_listeners ?above ?ev (elements pg) = (?ev, elements pg, [])"
      using above h m c(1,2) by (rule run_links_closed)
    with first show ?thesis
      by (simp add: click_def unfold run_listeners_append)
  qed

  obtain els1 where n: "nav_link_click (Some h) (Some m) (elements pg) = (els1, None)"
    by (rule nav_link_click_total)
  from nav_link_click_twice [OF n] n
  have twice_handler: "nav_link_click (Some h) (Some m)
      (fst (nav_link_click (Some h) (Some m) (elements pg))) =
      nav_link_click (Some h) (Some m) (elements pg)"
    by simp

  obtain pg1 ev1 errs1 where c: "click l pg = (pg1, ev1, errs1)"
    by (cases "click l pg")
  obtain ev2 els2 errs2 where
    r: "run_listeners (listeners_along l pg) ?ev (elements pg) = (ev2, els2, errs2)"
    by (cases "run_listeners (listeners_along l pg) ?ev (elements pg)")
  from c r have pg1: "pg1 = pg\<lparr>elements := els2\<rparr>" "ev1 = ev2" "errs1 = errs2"
    by (simp_all add: click_def)
  have same: "listeners_along l pg1 = listeners_along l pg"
    using c by (rule click_listeners_along)
  have "nav_link_click (Some h) (Some m) els2 = nav_link_click (Some h) (Some m) (elements pg)"
    using r sub by (rule run_listeners_then_link)
  with sub mem have "run_listeners (listeners_along l pg) ?ev els2 =
      run_listeners (listeners_along l pg) ?ev (elements pg)"
    by (rule run_listeners_same_after_link)
  with r same pg1 have "click l pg1 = (pg1, ev1, errs1)"
    by (simp add: click_def)
  with c have twice_click: "click l (fst (click l pg)) = click l pg"
    by simp
  from handler noop twice_handler twice_click show ?thesis by blast
qed

theorem link_click_closed_noop_witness:
  "querySelector ''.hamburger''
     [\<lparr>classList = [''hamburger''], parentNode = None\<rparr>,
      \<lparr>classList = [''nav-menu''], parentNode = None\<rparr>,
      \<lparr>classList = [''nav-link''], parentNode = Some 1\<rparr>] = Some 0 \<and>
   querySelector ''.nav-menu''
     [\<lparr>classList = [''hamburger''], parentNode = None\<rparr>,
      \<lparr>classList = [''nav-menu''], parentNode = None\<rparr>,
      \<lparr>classList = [''nav-link''], parentNode = Some 1\<rparr>] = Some 1 \<and>
   DOMContentLoaded
     [\<lparr>classList = [''hamburger''], parentNode = None\<rparr>,
      \<lparr>classList = [''nav-menu''], parentNode = None\<rparr>,
      \<lparr>classList = [''nav-link''], parentNode = Some 1\<rparr>] =
     Inr \<lparr>elements = [\<lparr>classList = [''hamburger''], parentNode = None\<rparr>,
                       \<lparr>classList = [''nav-menu''], parentNode = None\<rparr>,
                       \<lparr>classList = [''nav-link''], parentNode = Some 1\<rparr>],
          listeners = [(0, HamburgerClick (Some 0) (Some 1)), (2, NavLinkClick (Some 0) (Some 1))]\<rparr> \<and>
   2 \<in> set (querySelectorAll ''.nav-link''
     [\<lparr>classList = [''hamburger''], parentNode = None\<rparr>,
      \<lparr>classList = [''nav-menu''], parentNode = None\<rparr>,
      \<lparr>classList = [''nav-link''], parentNode = Some 1\<rparr>]) \<and>
   \<not> active [\<lparr>classList = [''hamburger''], parentNode = None\<rparr>,
      \<lparr>classList = [''nav-menu''], parentNode = None\<rparr>,
      \<lparr>classList = [''nav-link''], parentNode = Some 1\<rparr>] 0 \<and>
   \<not> active [\<lparr>classList = [''hamburger''], parentNode = None\<rparr>,
      \<lparr>classList = [''nav-menu''], parentNode = None\<rparr>,
      \<lparr>classList = [''nav-link''], parentNode = Some 1\<rparr>] 1 \<and>
   0 \<notin> set (tl (propagation_path
     [\<lparr>classList = [''hamburger''], parentNode = None\<rparr>,
      \<lparr>classList = [''nav-menu''], parentNode = None\<rparr>,
      \<lparr>classList = [''nav-link''], parentNode = Some 1\<rparr>] 2)) \<and>
   click 2
     \<lparr>elements = [\<lparr>classList = [''hamburger''], parentNode = None\<rparr>,
                  \<lparr>classList = [''nav-menu''], parentNode = None\<rparr>,
                  \<lparr>classList = [''nav-link''], parentNode = Some 1\<rparr>],
      listeners = [(0, HamburgerClick (Some 0) (Some 1)), (2, NavLinkClick (Some 0) (Some 1))]\<rparr> =
     (\<lparr>elements = [\<lparr>classList = [''hamburger''], parentNode = None\<rparr>,
                   \<lparr>classList = [''nav-menu''], parentNode = None\<rparr>,
                   \<lparr>classList = [''nav-link''], parentNode = Some 1\<rparr>],
       listeners = [(0, HamburgerClick (Some 0) (Some 1)), (2, NavLinkClick (Some 0) (Some 1))]\<rparr>,
      \<lparr>target = 2, defaultPrevented = False\<rparr>, [])"
proof -
  let ?doc = "[\<lparr>classList = [''hamburger''], parentNode = None\<rparr>,
               \<lparr>classList = [''nav-menu''], parentNode = None\<rparr>,
               \<lparr>classList = [''nav-link''], parentNode = Some 1\<rparr>]"
  let ?pg0 = "\<lparr>elements = ?doc,
    listeners = [(0, HamburgerClick (Some 0) (Some 1)), (2::nat, NavLinkClick (Some 0) (Some 1))]\<rparr>"
  have a: "querySelector ''.hamburger'' ?doc = Some 0"
    and b: "querySelector ''.nav-menu'' ?doc = Some 1"
    and c: "DOMContentLoaded ?doc = Inr ?pg0"
    and d: "2 \<in> set (querySelectorAll ''.nav-link'' ?doc)"
    and e: "listeners ?pg0 = listeners ?pg0" and f: "length (elements ?pg0) = length ?doc"
    and g: "\<not> active ?doc 0" and i: "\<not> active ?doc 1"
    and j: "0 \<notin> set (tl (propagation_path ?doc 2))"
    by (simp_all add: eval_defs)
  have sel: "elements ?pg0 = ?doc" by simp
  from link_click_closed_noop [OF a b c d e f] g i j
  have "click 2 ?pg0 = (?pg0, \<lparr>target = 2, defaultPrevented = False\<rparr>, [])"
    unfolding sel by blast
  with a b c d g i j show ?thesis by blast
qed

text \<open>
  C7. With no element matched by \<^verbatim>\<open>.nav-link\<close> (and the toggle control and the menu
  panel two elements of the document), the initialisation returns a page whose only
  listener is the toggle handler on the toggle control. In every state of that page no
  click on any element reports an exception, and a click on the toggle control does what
  the toggle handler does: each marker is negated. The same click gives the same elements
  on the page of a document that has link items, none of them the toggle control or an
  element above it.
\<close>

theorem no_links_toggle_still_works:
  assumes "querySelector ''.hamburger'' doc = Some h" "querySelector ''.nav-menu'' doc = Some m"
    and "h \<noteq> m" "querySelectorAll ''.nav-link'' doc = []"
  shows "\<exists>pg0. DOMContentLoaded doc = Inr pg0 \<and> elements pg0 = doc \<and>
           listeners pg0 = [(h, HamburgerClick (Some h) (Some m))] \<and>
           (\<forall>pg. listeners pg = listeners pg0 \<and> length (elements pg) = length doc \<longrightarrow>
              (\<forall>t. \<exists>pg' ev. click t pg = (pg', ev, [])) \<and>
              (\<exists>els'. hamburger_click (Some h) (Some m) (elements pg) = (els', None) \<and>
                 click h pg = (pg\<lparr>elements := els'\<rparr>, \<lparr>target = h, defaultPrevented = False\<rparr>, []) \<and>
                 active els' h = (\<not> active (elements pg) h) \<and>
                 active els' m = (\<not> active (elements pg) m) \<and>
                 (\<forall>doc2 pg2_0 pg2.
                    querySelector ''.hamburger'' doc2 = Some h \<and>
                    querySelector ''.nav-menu'' doc2 = Some m \<and>
                    set (propagation_path (elements pg2) h) \<inter>
                      set (querySelectorAll ''.nav-link'' doc2) = {} \<and>
                    DOMContentLoaded doc2 = Inr pg2_0 \<and>
                    listeners pg2 = listeners pg2_0 \<and> elements pg2 = elements pg \<longrightarrow>
                    click h pg2 = (pg2\<lparr>elements := els'\<rparr>, \<lparr>target = h, defaultPrevented = False\<rparr>, []))))"
proof -
  let ?pg0 = "\<lparr>elements = doc, listeners = [(h, HamburgerClick (Some h) (Some m))]\<rparr>"
  have init: "DOMContentLoaded doc = Inr ?pg0"
    using assms(2,4) by (simp add: DOMContentLoaded_page [OF assms(1)])
  have "(\<forall>t. \<exists>pg' ev. click t pg = (pg', ev, [])) \<and>
        (\<exists>els'. hamburger_click (Some h) (Some m) (elements pg) = (els', None) \<and>
           click h pg = (pg\<lparr>elements := els'\<rparr>, \<lparr>target = h, defaultPrevented = False\<rparr>, []) \<and>
           active els' h = (\<not> active (elements pg) h) \<and>
           active els' m = (\<not> active (elements pg) m) \<and>
           (\<forall>doc2 pg2_0 pg2.
              querySelector ''.hamburger'' doc2 = Some h \<and>
              querySelector ''.nav-menu'' doc2 = Some m \<and>
              set (propagation_path (elements pg2) h) \<inter>
                      set (querySelectorAll ''.nav-link'' doc2) = {} \<and>
              DOMContentLoaded doc2 = Inr pg2_0 \<and>
              listeners pg2 = listeners pg2_0 \<and> elements pg2 = elements pg \<longrightarrow>
              click h pg2 = (pg2\<lparr>elements := els'\<rparr>, \<lparr>target = h, defaultPrevented = False\<rparr>, [])))"
    if pg: "listeners pg = listeners ?pg0" "length (elements pg) = length doc" for pg
  proof -
    have h: "h < length (elements pg)" and m: "m < length (elements pg)"
      using assms(1,2) pg(2) by (auto dest: querySelector_lt)
    obtain els' where c: "hamburger_click (Some h) (Some m) (elements pg) = (els', None)"
      by (rule hamburger_click_total)
    have quiet: "\<exists>pg' ev. click t pg = (pg', ev, [])" for t
    proof -
      obtain ev1 els1 errs1 where
        r: "run_listeners (listeners_along t pg) \<lparr>target = t, defaultPrevented = False\<rparr> (elements pg) =
              (ev1, els1, errs1)"
        by (cases "run_listeners (listeners_along t pg) \<lparr>target = t, defaultPrevented = False\<rparr> (elements pg)")
      have "set (listeners_along t pg) \<subseteq>
          {HamburgerClick (Some h) (Some m), NavLinkClick (Some h) (Some m)}"
        using listeners_along_init [OF assms(1) init pg(1), of t] assms(2) by simp
      with r have "errs1 = []" by (rule run_listeners_quiet)
      with r show ?thesis by (simp add: click_def)
    qed
    have here: "click h pg = (pg\<lparr>elements := els'\<rparr>, \<lparr>target = h, defaultPrevented = False\<rparr>, [])"
      using click_toggle_control [OF assms(1) init pg(1), of els' None] c assms(2,4) by simp
    have there: "click h pg2 = (pg2\<lparr>elements := els'\<rparr>, \<lparr>target = h, defaultPrevented = False\<rparr>, [])"
      if "querySelector ''.hamburger'' doc2 = Some h" "querySelector ''.nav-menu'' doc2 = Some m"
        "set (propagation_path (elements pg2) h) \<inter> set (querySelectorAll ''.nav-link'' doc2) = {}"
        "DOMContentLoaded doc2 = Inr pg2_0"
        "listeners pg2 = listeners pg2_0" "elements pg2 = elements pg" for doc2 pg2_0 pg2
      using click_toggle_control [OF that(1,4,5,3), of els' None] c that(2,6) by simp
    from quiet here there c hamburger_click_flips [OF c h m assms(3)] show ?thesis by blast
  qed
  with init show ?thesis by (intro exI [of _ ?pg0]) simp
qed

theorem no_links_toggle_still_works_witness:
  "querySelector ''.hamburger'' [\<lparr>classList = [''hamburger''], parentNode = None\<rparr>, \<lparr>classList = [''nav-menu''], parentNode = None\<rparr>] = Some 0 \<and>
   querySelector ''.nav-menu'' [\<lparr>classList = [''hamburger''], parentNode = None\<rparr>, \<lparr>classList = [''nav-menu''], parentNode = None\<rparr>] = Some 1 \<and>
   (0::nat) \<noteq> 1 \<and>
   querySelectorAll ''.nav-link'' [\<lparr>classList = [''hamburger''], parentNode = None\<rparr>, \<lparr>classList = [''nav-menu''], parentNode = None\<rparr>] = [] \<and>
   DOMContentLoaded [\<lparr>classList = [''hamburger''], parentNode = None\<rparr>, \<lparr>classList = [''nav-menu''], parentNode = None\<rparr>] =
     Inr \<lparr>elements = [\<lparr>classList = [''hamburger''], parentNode = None\<rparr>, \<lparr>classList = [''nav-menu''], parentNode = None\<rparr>],
          listeners = [(0, HamburgerClick (Some 0) (Some 1))]\<rparr> \<and>
   click 0 \<lparr>elements = [\<lparr>classList = [''hamburger''], parentNode = None\<rparr>, \<lparr>classList = [''nav-menu''], parentNode = None\<rparr>],
            listeners = [(0, HamburgerClick (Some 0) (Some 1))]\<rparr> =
     (\<lparr>elements = [\<lparr>classList = [''hamburger'', ''active''], parentNode = None\<rparr>, \<lparr>classList = [''nav-menu'', ''active''], parentNode = None\<rparr>],
       listeners = [(0, HamburgerClick (Some 0) (Some 1))]\<rparr>,
      \<lparr>target = 0, defaultPrevented = False\<rparr>, []) \<and>
   active [\<lparr>classList = [''hamburger'', ''active''], parentNode = None\<rparr>, \<lparr>classList = [''nav-menu'', ''active''], parentNode = None\<rparr>] 0 \<and>
   active [\<lparr>classList = [''hamburger'', ''active''], parentNode = None\<rparr>, \<lparr>classList = [''nav-menu'', ''active''], parentNode = None\<rparr>] 1"
proof -
  let ?doc = "[\<lparr>classList = [''hamburger''], parentNode = None\<rparr>, \<lparr>classList = [''nav-menu''], parentNode = None\<rparr>]"
  let ?els1 = "[\<lparr>classList = [''hamburger'', ''active''], parentNode = None\<rparr>, \<lparr>classList = [''nav-menu'', ''active''], parentNode = None\<rparr>]"
  let ?ls = "[(0::nat, HamburgerClick (Some 0) (Some 1))]"
  let ?pg0 = "\<lparr>elements = ?doc, listeners = ?ls\<rparr>"
  have a: "querySelector ''.hamburger'' ?doc = Some 0"
    and b: "querySelector ''.nav-menu'' ?doc = Some 1"
    and c: "(0::nat) \<noteq> 1"
    and d: "querySelectorAll ''.nav-link'' ?doc = []"
    and e: "DOMContentLoaded ?doc = Inr ?pg0"
    and f: "\<not> active ?doc 0" and g: "\<not> active ?doc 1"
    and run: "hamburger_click (Some 0) (Some 1) ?doc = (?els1, None)"
    by (simp_all add: eval_defs)
  from no_links_toggle_still_works [OF a b c d] e
  have "\<forall>pg. listeners pg = listeners ?pg0 \<and> length (elements pg) = length ?doc \<longrightarrow>
          (\<exists>els'. hamburger_click (Some 0) (Some 1) (elements pg) = (els', None) \<and>
             click 0 pg = (pg\<lparr>elements := els'\<rparr>, \<lparr>target = 0, defaultPrevented = False\<rparr>, []) \<and>
             active els' 0 = (\<not> active (elements pg) 0) \<and>
             active els' 1 = (\<not> active (elements pg) 1))"
    by auto
  from this [rule_format, of ?pg0]
  have "\<exists>els'. hamburger_click (Some 0) (Some 1) (elements ?pg0) = (els', None) \<and>
             click 0 ?pg0 = (?pg0\<lparr>elements := els'\<rparr>, \<lparr>target = 0, defaultPrevented = False\<rparr>, []) \<and>
             active els' 0 = (\<not> active (elements ?pg0) 0) \<and>
             active els' 1 = (\<not> active (elements ?pg0) 1)"
    by simp
  with run f g have "click 0 ?pg0 = (?pg0\<lparr>elements := ?els1\<rparr>, \<lparr>target = 0, defaultPrevented = False\<rparr>, []) \<and>
      active ?els1 0 \<and> active ?els1 1"
    by auto
  with a b c d e show ?thesis by simp
qed

text \<open>
  C8. Whatever references a handler captured and whether or not it throws, a call of
  either handler returns the event object as it got it (so \<open>defaultPrevented\<close> stays as
  it was), leaves the number of elements and every element it holds no reference to
  unchanged, and changes on no element the parent or any class other than \<^verbatim>\<open>active\<close>.
  A click on any element of any page, with every listener it reaches on its way up, ends
  with \<open>defaultPrevented\<close> false, the registered listeners unchanged and, on every
  element, the parent and the classes other than \<^verbatim>\<open>active\<close> unchanged.
\<close>

theorem handlers_frame:
  assumes "l = HamburgerClick hamburger navMenu \<or> l = NavLinkClick hamburger navMenu"
    and "call l ev els = (ev', els', err)"
    and "click t pg = (pg', cev, errs)"
  shows "ev' = ev \<and> length els' = length els \<and>
         (\<forall>i<length els. hamburger \<noteq> Some i \<and> navMenu \<noteq> Some i \<longrightarrow> els' ! i = els ! i) \<and>
         (\<forall>i<length els. filter (\<lambda>c. c \<noteq> ''active'') (classList (els' ! i)) =
                           filter (\<lambda>c. c \<noteq> ''active'') (classList (els ! i))) \<and>
         (\<forall>i<length els. parentNode (els' ! i) = parentNode (els ! i)) \<and>
         cev = \<lparr>target = t, defaultPrevented = False\<rparr> \<and>
         listeners pg' = listeners pg \<and>
         length (elements pg') = length (elements pg) \<and>
         (\<forall>i<length (elements pg).
            filter (\<lambda>c. c \<noteq> ''active'') (classList (elements pg' ! i)) =
            filter (\<lambda>c. c \<noteq> ''active'') (classList (elements pg ! i))) \<and>
         (\<forall>i<length (elements pg). parentNode (elements pg' ! i) = parentNode (elements pg ! i))"
proof -
  have "\<forall>i<length els. hamburger \<noteq> Some i \<and> navMenu \<noteq> Some i \<longrightarrow> els' ! i = els ! i"
    using assms(1,2)
    by (auto split: prod.splits simp: hamburger_click_other nav_link_click_other)
  moreover have "\<forall>i<length (elements pg).
            filter (\<lambda>c. c \<noteq> ''active'') (classList (elements pg' ! i)) =
            filter (\<lambda>c. c \<noteq> ''active'') (classList (elements pg ! i))"
    using assms(3) by (auto simp: click_def split: prod.splits dest: run_listeners_classes)
  ultimately show ?thesis
    using call_event [OF assms(2)] call_length [OF assms(2)] call_classes [OF assms(2)]
      click_event [OF assms(3)] click_listeners [OF assms(3)] click_length [OF assms(3)]
      call_parentNode [OF assms(2)] click_parentNode [OF assms(3)]
    by simp
qed

theorem handlers_frame_witness:
  "(NavLinkClick (Some 0) None = HamburgerClick (Some 0) None \<or>
    NavLinkClick (Some 0) None = NavLinkClick (Some 0) None) \<and>
   call (NavLinkClick (Some 0) None) \<lparr>target = 1, defaultPrevented = False\<rparr>
     [\<lparr>classList = [''hamburger'', ''active'', ''big''], parentNode = None\<rparr>, \<lparr>classList = [''nav-link'', ''active''], parentNode = None\<rparr>] =
     (\<lparr>target = 1, defaultPrevented = False\<rparr>,
      [\<lparr>classList = [''hamburger'', ''big''], parentNode = None\<rparr>, \<lparr>classList = [''nav-link'', ''active''], parentNode = None\<rparr>],
      Some TypeError) \<and>
   click 1 \<lparr>elements = [\<lparr>classList = [''hamburger'', ''active'', ''big''], parentNode = None\<rparr>,
                        \<lparr>classList = [''nav-link'', ''active''], parentNode = None\<rparr>],
            listeners = [(0, HamburgerClick (Some 0) None), (1, NavLinkClick (Some 0) None)]\<rparr> =
     (\<lparr>elements = [\<lparr>classList = [''hamburger'', ''big''], parentNode = None\<rparr>, \<lparr>classList = [''nav-link'', ''active''], parentNode = None\<rparr>],
       listeners = [(0, HamburgerClick (Some 0) None), (1, NavLinkClick (Some 0) None)]\<rparr>,
      \<lparr>target = 1, defaultPrevented = False\<rparr>, [TypeError]) \<and>
   [\<lparr>classList = [''hamburger'', ''big''], parentNode = None\<rparr>, \<lparr>classList = [''nav-link'', ''active''], parentNode = None\<rparr>] ! 1 =
   [\<lparr>classList = [''hamburger'', ''active'', ''big''], parentNode = None\<rparr>, \<lparr>classList = [''nav-link'', ''active''], parentNode = None\<rparr>] ! 1 \<and>
   filter (\<lambda>c. c \<noteq> ''active'')
     (classList ([\<lparr>classList = [''hamburger'', ''big''], parentNode = None\<rparr>, \<lparr>classList = [''nav-link'', ''active''], parentNode = None\<rparr>] ! 0)) =
   filter (\<lambda>c. c \<noteq> ''active'')
     (classList ([\<lparr>classList = [''hamburger'', ''active'', ''big''], parentNode = None\<rparr>, \<lparr>classList = [''nav-link'', ''active''], parentNode = None\<rparr>] ! 0))"
proof -
  let ?els = "[\<lparr>classList = [''hamburger'', ''active'', ''big''], parentNode = None\<rparr>, \<lparr>classList = [''nav-link'', ''active''], parentNode = None\<rparr>]"
  let ?els' = "[\<lparr>classList = [''hamburger'', ''big''], parentNode = None\<rparr>, \<lparr>classList = [''nav-link'', ''active''], parentNode = None\<rparr>]"
  let ?ls = "[(0::nat, HamburgerClick (Some 0) None), (1, NavLinkClick (Some 0) None)]"
  let ?ev = "\<lparr>target = 1, defaultPrevented = False\<rparr>"
  have a: "NavLinkClick (Some 0) None = HamburgerClick (Some 0) None \<or>
           NavLinkClick (Some 0) None = NavLinkClick (Some 0) None"
    by simp
  have b: "call (NavLinkClick (Some 0) None) ?ev ?els = (?ev, ?els', Some TypeError)"
    by (simp add: eval_defs)
  have c: "click 1 \<lparr>elements = ?els, listeners = ?ls\<rparr> =
      (\<lparr>elements = ?els', listeners = ?ls\<rparr>, ?ev, [TypeError])"
    by (simp add: eval_defs)
  have n: "(1::nat) < length ?els" "(0::nat) < length ?els" "Some (0::nat) \<noteq> Some 1" "None \<noteq> Some (1::nat)"
    by simp_all
  from handlers_frame [OF a b c]
  have "(\<forall>i<length ?els. Some 0 \<noteq> Some i \<and> None \<noteq> Some i \<longrightarrow> ?els' ! i = ?els ! i) \<and>
        (\<forall>i<length ?els. filter (\<lambda>c. c \<noteq> ''active'') (classList (?els' ! i)) =
                           filter (\<lambda>c. c \<noteq> ''active'') (classList (?els ! i)))"
    by blast
  with n have "?els' ! 1 = ?els ! 1 \<and>
      filter (\<lambda>c. c \<noteq> ''active'') (classList (?els' ! 0)) =
      filter (\<lambda>c. c \<noteq> ''active'') (classList (?els ! 0))"
    by blast
  with a b c show ?thesis by blast
qed



text \<open>
  C10. With a toggle control and no menu panel in the document, the initialisation
  returns a page. One run of the toggle handler on the document then flips the marker of
  the toggle control and ends with a TypeError, leaving a document that is not the one it
  started from. The first click on the toggle control reports that TypeError first; when
  neither the toggle control nor an element above it is a link item, the click reports
  nothing else and leaves the page with the marker of the toggle control flipped.
\<close>

theorem menu_panel_missing_deferred:
  assumes "querySelector ''.hamburger'' doc = Some h" "querySelector ''.nav-menu'' doc = None"
  shows "\<exists>pg0 els'. DOMContentLoaded doc = Inr pg0 \<and> elements pg0 = doc \<and>
           hamburger_click (Some h) None doc = (els', Some TypeError) \<and>
           active els' h = (\<not> active doc h) \<and> els' \<noteq> doc \<and>
           (\<exists>pg' ev errs. click h pg0 = (pg', ev, TypeError # errs)) \<and>
           (set (propagation_path doc h) \<inter> set (querySelectorAll ''.nav-link'' doc) = {} \<longrightarrow>
              click h pg0 = (pg0\<lparr>elements := els'\<rparr>, \<lparr>target = h, defaultPrevented = False\<rparr>, [TypeError]))"
proof -
  let ?links = "querySelectorAll ''.nav-link'' doc"
  let ?pg0 = "\<lparr>elements = doc,
    listeners = (h, HamburgerClick (Some h) None) # map (\<lambda>item. (item, NavLinkClick (Some h) None)) ?links\<rparr>"
  have init: "DOMContentLoaded doc = Inr ?pg0"
    using assms(2) by (simp add: DOMContentLoaded_page [OF assms(1)])
  have h: "h < length doc" using assms(1) by (rule querySelector_lt)
  obtain els' err where c: "hamburger_click (Some h) None doc = (els', err)"
    by (cases "hamburger_click (Some h) None doc")
  then obtain els1 where t: "classList_toggle (Some h) ''active'' doc = Inr els1"
    and r: "els' = els1" "err = Some TypeError"
    by (cases rule: hamburger_click_cases) (auto simp: classList_toggle_def)
  have flip: "active els' h = (\<not> active doc h)"
    using h r by (simp add: active_def classList_toggle_nth [OF t])
  then have neq: "els' \<noteq> doc" by auto
  have on: "listeners_on h ?pg0 = [HamburgerClick (Some h) None] @
      (if h \<in> set ?links then [NavLinkClick (Some h) None] else [])"
    using assms(2) listeners_on_init [OF assms(1) init refl, of h] by simp
  have first: "\<exists>pg' ev errs. click h ?pg0 = (pg', ev, TypeError # errs)"
    using c r by (simp add: click_def listeners_along_unfold [of h ?pg0] on split: prod.splits)
  have alone: "click h ?pg0 = (?pg0\<lparr>elements := els'\<rparr>, \<lparr>target = h, defaultPrevented = False\<rparr>, [TypeError])"
    if "set (propagation_path doc h) \<inter> set ?links = {}"
    using click_toggle_control [OF assms(1) init refl, of els' err] that c r assms(2) by simp
  show ?thesis
    using init c r flip neq first alone
    by (intro exI [of _ ?pg0] exI [of _ els']) simp
qed

theorem menu_panel_missing_deferred_witness:
  "querySelector ''.hamburger'' [\<lparr>classList = [''hamburger''], parentNode = None\<rparr>, \<lparr>classList = [''nav-link''], parentNode = None\<rparr>] = Some 0 \<and>
   querySelector ''.nav-menu'' [\<lparr>classList = [''hamburger''], parentNode = None\<rparr>, \<lparr>classList = [''nav-link''], parentNode = None\<rparr>] = None \<and>
   DOMContentLoaded [\<lparr>classList = [''hamburger''], parentNode = None\<rparr>, \<lparr>classList = [''nav-link''], parentNode = None\<rparr>] =
     Inr \<lparr>elements = [\<lparr>classList = [''hamburger''], parentNode = None\<rparr>, \<lparr>classList = [''nav-link''], parentNode = None\<rparr>],
          listeners = [(0, HamburgerClick (Some 0) None), (1, NavLinkClick (Some 0) None)]\<rparr> \<and>
   hamburger_click (Some 0) None [\<lparr>classList = [''hamburger''], parentNode = None\<rparr>, \<lparr>classList = [''nav-link''], parentNode = None\<rparr>] =
     ([\<lparr>classList = [''hamburger'', ''active''], parentNode = None\<rparr>, \<lparr>classList = [''nav-link''], parentNode = None\<rparr>], Some TypeError) \<and>
   set (propagation_path [\<lparr>classList = [''hamburger''], parentNode = None\<rparr>, \<lparr>classList = [''nav-link''], parentNode = None\<rparr>] 0) \<inter>
   set (querySelectorAll ''.nav-link'' [\<lparr>classList = [''hamburger''], parentNode = None\<rparr>, \<lparr>classList = [''nav-link''], parentNode = None\<rparr>]) = {} \<and>
   click 0 \<lparr>elements = [\<lparr>classList = [''hamburger''], parentNode = None\<rparr>, \<lparr>classList = [''nav-link''], parentNode = None\<rparr>],
            listeners = [(0, HamburgerClick (Some 0) None), (1, NavLinkClick (Some 0) None)]\<rparr> =
     (\<lparr>elements = [\<lparr>classList = [''hamburger'', ''active''], parentNode = None\<rparr>, \<lparr>classList = [''nav-link''], parentNode = None\<rparr>],
       listeners = [(0, HamburgerClick (Some 0) None), (1, NavLinkClick (Some 0) None)]\<rparr>,
      \<lparr>target = 0, defaultPrevented = False\<rparr>, [TypeError])"
proof -
  let ?doc = "[\<lparr>classList = [''hamburger''], parentNode = None\<rparr>, \<lparr>classList = [''nav-link''], parentNode = None\<rparr>]"
  let ?els' = "[\<lparr>classList = [''hamburger'', ''active''], parentNode = None\<rparr>, \<lparr>classList = [''nav-link''], parentNode = None\<rparr>]"
  let ?ls = "[(0::nat, HamburgerClick (Some 0) None), (1, NavLinkClick (Some 0) None)]"
  let ?pg0 = "\<lparr>elements = ?doc, listeners = ?ls\<rparr>"
  have a: "querySelector ''.hamburger'' ?doc = Some 0"
    and b: "querySelector ''.nav-menu'' ?doc = None"
    and c: "DOMContentLoaded ?doc = Inr ?pg0"
    and d: "hamburger_click (Some 0) None ?doc = (?els', Some TypeError)"
    and e: "set (propagation_path ?doc 0) \<inter> set (querySelectorAll ''.nav-link'' ?doc) = {}"
    by (simp_all add: eval_defs)
  from menu_panel_missing_deferred [OF a b] c d e
  have "click 0 ?pg0 = (?pg0\<lparr>elements := ?els'\<rparr>, \<lparr>target = 0, defaultPrevented = False\<rparr>, [TypeError])"
    by auto
  with a b c d e show ?thesis by simp
qed

end
